theory Spec2Isabelle
  imports Complex_Main "HOL-Library.Word"
begin

unbundle bit_operations_syntax

section \<open>Bonzaikono: the procedural tree generator\<close>

text \<open>
  A shallow embedding of the tree renderers of \<^verbatim>\<open>src/components/TreeRender.tsx\<close> (the
  flattened 2D canvas renderer and the recursive 3D mesh renderer), of the DNA helper
  \<^verbatim>\<open>generateDNASegment\<close> and of the tables of \<^verbatim>\<open>src/constants.ts\<close>.

  Conventions of the embedding.
  \<^item> A JavaScript string is a \<^typ>\<open>string\<close>; \<^verbatim>\<open>charCodeAt\<close> of a character is its code.
    Strings whose code units exceed 255 are outside the model.
  \<^item> The 32-bit integers of the hash are \<^typ>\<open>32 word\<close>; \<^verbatim>\<open>Math.imul\<close> is the wrapping
    product and \<^verbatim>\<open>>>>\<close> is \<^const>\<open>drop_bit\<close>.
  \<^item> Counters (\<^verbatim>\<open>depth\<close>, \<^verbatim>\<open>cursor\<close>, \<^verbatim>\<open>pruningCount\<close>, \<^verbatim>\<open>wiringState\<close>) are natural
    numbers; lengths, radii and angles are exact reals, so the rounding of IEEE doubles
    is not part of the generator's model. The one product \<^verbatim>\<open>radius * 0.7\<close> is also given
    in double precision, to show where the two arithmetics part.
  \<^item> \<^verbatim>\<open>Math.random()\<close> is an explicit stream of draws with a position that each call
    advances.
\<close>

subsection \<open>Strings and numbers\<close>

definition digitChar :: "nat \<Rightarrow> char" where
  "digitChar d = ''0123456789abcdefghijklmnopqrstuvwxyz'' ! d"

text \<open>\<^verbatim>\<open>Number.prototype.toString(radix)\<close> on a non-negative integer, radix 2 to 36.\<close>

function numberToString :: "nat \<Rightarrow> nat \<Rightarrow> string" where
  "numberToString radix n =
     (if n < radix \<or> radix < 2 then [digitChar n]
      else numberToString radix (n div radix) @ [digitChar (n mod radix)])"
  by pat_completeness auto
termination
  by (relation "measure (\<lambda>(radix, n). n)") auto

declare numberToString.simps [simp del]

text \<open>String concatenation with a number, \<^verbatim>\<open>s + n\<close>, renders \<open>n\<close> in decimal.\<close>

definition str :: "nat \<Rightarrow> string" where
  "str n = numberToString 10 n"

definition toUpperCaseChar :: "char \<Rightarrow> char" where
  "toUpperCaseChar c =
     (case map_of (zip ''abcdefghijklmnopqrstuvwxyz'' ''ABCDEFGHIJKLMNOPQRSTUVWXYZ'') c of
        Some u \<Rightarrow> u
      | None \<Rightarrow> c)"

text \<open>\<^verbatim>\<open>toUpperCase\<close>, on the ASCII strings the program applies it to.\<close>

definition toUpperCase :: "string \<Rightarrow> string" where
  "toUpperCase s = map toUpperCaseChar s"

text \<open>\<^verbatim>\<open>s.substring(a, b)\<close> for \<open>a \<le> b\<close>: indices beyond the end are clamped.\<close>

definition substring :: "string \<Rightarrow> nat \<Rightarrow> nat \<Rightarrow> string" where
  "substring s a b = take (b - a) (drop a s)"

text \<open>\<^verbatim>\<open>s.padStart(n, '0')\<close>.\<close>

definition padStart0 :: "string \<Rightarrow> nat \<Rightarrow> string" where
  "padStart0 s n = replicate (n - length s) CHR ''0'' @ s"

text \<open>An array read \<^verbatim>\<open>xs[i]\<close>: \<^verbatim>\<open>undefined\<close> (here \<open>None\<close>) outside the array.\<close>

definition arrayGet :: "'a list \<Rightarrow> int \<Rightarrow> 'a option" where
  "arrayGet xs i = (if 0 \<le> i \<and> i < int (length xs) then Some (xs ! nat i) else None)"

text \<open>\<^verbatim>\<open>a || b\<close> on possibly undefined strings: the empty string is falsy too.\<close>

definition truthy :: "string option \<Rightarrow> bool" where
  "truthy v = (case v of None \<Rightarrow> False | Some s \<Rightarrow> s \<noteq> [])"

definition orElse :: "string option \<Rightarrow> string option \<Rightarrow> string option" where
  "orElse a b = (if truthy a then a else b)"

subsection \<open>The seeded hash stream\<close>

type_synonym int32 = "32 word"

definition imul :: "int32 \<Rightarrow> int32 \<Rightarrow> int32" where
  "imul a b = a * b"

definition charCodeAt :: "char \<Rightarrow> int32" where
  "charCodeAt c = of_nat (of_char c)"

fun cyrb53_loop :: "string \<Rightarrow> int32 \<times> int32 \<Rightarrow> int32 \<times> int32" where
  "cyrb53_loop [] (h1, h2) = (h1, h2)"
| "cyrb53_loop (ch # rest) (h1, h2) =
     cyrb53_loop rest
       (imul (h1 XOR charCodeAt ch) 2654435761, imul (h2 XOR charCodeAt ch) 1597334677)"

definition cyrb53 :: "string \<Rightarrow> int32 \<Rightarrow> nat" where
  "cyrb53 s seed =
     (let (h1, h2) = cyrb53_loop s (0xdeadbeef XOR seed, 0x41c6ce57 XOR seed);
          h1' = imul (h1 XOR drop_bit 16 h1) 2246822507
                  XOR imul (h2 XOR drop_bit 13 h2) 3266489909;
          h2' = imul (h2 XOR drop_bit 16 h2) 2246822507
                  XOR imul (h1' XOR drop_bit 13 h1') 3266489909
      in 4294967296 * unat (2097151 AND h2') + unat h1')"

text \<open>\<^verbatim>\<open>(val % 1000) / 1000\<close>: the thousandths, then the quotient.\<close>

definition mille :: "nat \<Rightarrow> nat" where
  "mille val = val mod 1000"

definition unitFloat :: "nat \<Rightarrow> real" where
  "unitFloat val = real (mille val) / 1000"

subsection \<open>The DNA accessors\<close>

text \<open>
  The 3D path, \<^verbatim>\<open>getDnaRandom(dna, depth, offset)\<close>. The segment index is
  \<^verbatim>\<open>Math.min(Math.floor(depth / 2), dna.length - 1)\<close>, which is \<open>-1\<close> on an empty history.
\<close>

definition segmentIndex :: "string list \<Rightarrow> nat \<Rightarrow> int" where
  "segmentIndex dna depth = min (int (depth div 2)) (int (length dna) - 1)"

definition segment :: "string list \<Rightarrow> nat \<Rightarrow> string" where
  "segment dna depth =
     the (orElse (orElse (arrayGet dna (segmentIndex dna depth)) (arrayGet dna 0))
            (Some ''DEFAULT''))"

definition dnaKey :: "string list \<Rightarrow> nat \<Rightarrow> nat \<Rightarrow> string" where
  "dnaKey dna depth offset = segment dna depth @ str depth @ str offset"

definition getDnaRandom :: "string list \<Rightarrow> nat \<Rightarrow> nat \<Rightarrow> real" where
  "getDnaRandom dna depth offset = unitFloat (cyrb53 (dnaKey dna depth offset) 0)"

text \<open>
  The 2D path, \<^verbatim>\<open>getDnaFloat(dna, cursor)\<close>, with
  \<^verbatim>\<open>Math.floor(cursor / 10) % (dna?.length || 1)\<close> and the key \<^verbatim>\<open>`${segment}-${cursor}`\<close>.
\<close>

definition segmentIdx :: "string list \<Rightarrow> nat \<Rightarrow> nat" where
  "segmentIdx dna cursor =
     (cursor div 10) mod (if length dna = 0 then 1 else length dna)"

definition segment2D :: "string list \<Rightarrow> nat \<Rightarrow> string" where
  "segment2D dna cursor =
     (if truthy (arrayGet dna (int (segmentIdx dna cursor)))
      then the (arrayGet dna (int (segmentIdx dna cursor))) else ''SEED'')"

definition floatKey :: "string list \<Rightarrow> nat \<Rightarrow> string" where
  "floatKey dna cursor = segment2D dna cursor @ ''-'' @ str cursor"

definition getDnaFloat :: "string list \<Rightarrow> nat \<Rightarrow> real" where
  "getDnaFloat dna cursor = unitFloat (cyrb53 (floatKey dna cursor) 0)"

subsection \<open>Types and tables\<close>

datatype TreeSpecies = PINE | MAPLE | CHERRY | OAK

datatype GrowthStage = SEED | SAPLING | ADULT | MASTER

text \<open>The string value of a species, as in \<^verbatim>\<open>enum TreeSpecies\<close>.\<close>

fun speciesName :: "TreeSpecies \<Rightarrow> string" where
  "speciesName PINE = ''Pine''"
| "speciesName MAPLE = ''Maple''"
| "speciesName CHERRY = ''Cherry''"
| "speciesName OAK = ''Oak''"

text \<open>
  \<^verbatim>\<open>TreeData\<close>. The field \<open>dna\<close> is optional at run time: both renderers guard it with
  \<^verbatim>\<open>tree.dna || [...]\<close> for records stored before the field existed.
\<close>

record TreeData =
  tree_id :: string
  tree_species :: TreeSpecies
  tree_stage :: GrowthStage
  tree_age :: real
  tree_water :: real
  tree_fertilizer :: real
  tree_health :: real
  tree_seedValue :: real
  tree_pruningCount :: nat
  tree_wiringState :: nat
  tree_dna :: "string list option"
  tree_name :: string
  tree_createdAt :: nat

datatype LeafShape = needle | broad | flower

record SpeciesConfig =
  colorLeaf :: string
  colorBark :: string
  leafShape :: LeafShape
  growthSpeed :: real

fun SPECIES_CONFIG :: "TreeSpecies \<Rightarrow> SpeciesConfig" where
  "SPECIES_CONFIG PINE =
     \<lparr>colorLeaf = ''#2d4f1e'', colorBark = ''#3e2723'', leafShape = needle, growthSpeed = 0.8\<rparr>"
| "SPECIES_CONFIG MAPLE =
     \<lparr>colorLeaf = ''#b91c1c'', colorBark = ''#5d4037'', leafShape = broad, growthSpeed = 1.0\<rparr>"
| "SPECIES_CONFIG CHERRY =
     \<lparr>colorLeaf = ''#fbcfe8'', colorBark = ''#4e342e'', leafShape = flower, growthSpeed = 1.2\<rparr>"
| "SPECIES_CONFIG OAK =
     \<lparr>colorLeaf = ''#4ade80'', colorBark = ''#5c4033'', leafShape = broad, growthSpeed = 0.9\<rparr>"

subsection \<open>The 3D structural generator\<close>

type_synonym vec3 = "real \<times> real \<times> real"

text \<open>
  What one \<^verbatim>\<open>Branch\<close> renders: the group's transform, the wood cylinder
  (\<^verbatim>\<open>[nextRadius, radius, length]\<close>), the foliage cluster of a terminal branch with its
  leaf colour (the base colour and the lightness shift given to \<^verbatim>\<open>offsetHSL\<close>), and the
  rendered children. The \<open>depth\<close> prop is kept with the node.
\<close>

datatype BranchNode = BranchNode
  (n_position: vec3)
  (n_rotation: vec3)
  (n_length: real)
  (n_radius: real)
  (n_nextRadius: real)
  (n_depth: nat)
  (n_bark: string)
  (n_foliage: "(string \<times> real) option")
  (n_children: "BranchNode list")

text \<open>A child that renders \<^verbatim>\<open>null\<close> leaves no node.\<close>

fun rendered :: "'a option \<Rightarrow> 'a list" where
  "rendered None = []"
| "rendered (Some n) = [n]"

function Branch ::
  "vec3 \<Rightarrow> vec3 \<Rightarrow> real \<Rightarrow> real \<Rightarrow> nat \<Rightarrow> nat \<Rightarrow> TreeSpecies \<Rightarrow> nat \<Rightarrow> nat \<Rightarrow> string list
     \<Rightarrow> BranchNode option" where
  "Branch position rotation len radius depth maxDepth species pruneState wireState dna =
     (let config = SPECIES_CONFIG species;
          isEnd = (depth \<ge> maxDepth);
          rndStructure = getDnaRandom dna depth 100;
          rndAngle = getDnaRandom dna depth 200
      in if depth > 1 \<and> getDnaRandom dna depth (300 + pruneState) > 0.85 then None
         else
           let curveMod = real wireState * 0.2;
               nextLength = len * (0.75 + rndStructure * 0.1);
               nextRadius = radius * 0.7;
               childCount = (if isEnd then 0 else 2 :: nat);
               children =
                 (if \<not> isEnd then
                    concat (map (\<lambda>i.
                      let angleVariance = rndAngle * 0.6 - 0.3;
                          angleOffset = (if i = 0 then 0.6 else - 0.6) + angleVariance + curveMod;
                          rotX = getDnaRandom dna (depth + 1) (i * 50) * 0.6;
                          rotZ = angleOffset
                      in rendered (Branch (0, len, 0) (rotX, 0, rotZ) nextLength nextRadius
                                    (depth + 1) maxDepth species pruneState wireState dna))
                      [0 ..< childCount])
                  else []);
               shift = (getDnaRandom dna maxDepth 999 - 0.5) * 0.1
           in Some (BranchNode position rotation len radius nextRadius depth (colorBark config)
                      (if isEnd then Some (colorLeaf config, shift) else None) children))"
  by pat_completeness auto
termination
  by (relation "measure (\<lambda>(position, rotation, len, radius, depth, maxDepth, rest).
        maxDepth - depth)") auto

declare Branch.simps [simp del]

text \<open>\<^verbatim>\<open>SeedObject\<close>: the capsule's radius and length, and its colour.\<close>

datatype SeedVisual = SeedVisual (capsuleRadius: real) (capsuleLength: real) (seedColor: string)

definition SeedObject :: "string list \<Rightarrow> TreeSpecies \<Rightarrow> SeedVisual" where
  "SeedObject dna species =
     (let seedHash = getDnaRandom dna 0 1
      in SeedVisual (0.15 + seedHash * 0.05) (0.3 + seedHash * 0.1)
           (colorBark (SPECIES_CONFIG species)))"

text \<open>The \<^verbatim>\<open>complexity\<close> of the 3D \<^verbatim>\<open>TreeRender\<close>.\<close>

fun complexity3D :: "GrowthStage \<Rightarrow> nat" where
  "complexity3D SEED = 0"
| "complexity3D SAPLING = 3"
| "complexity3D ADULT = 5"
| "complexity3D MASTER = 7"

datatype Render3D = SeedScene SeedVisual | TreeScene "BranchNode option"

text \<open>The tree group of the 3D \<^verbatim>\<open>TreeRender\<close>.\<close>

definition TreeRender3D :: "TreeData \<Rightarrow> Render3D" where
  "TreeRender3D tree =
     (let dna = (case tree_dna tree of Some d \<Rightarrow> d
                 | None \<Rightarrow> [speciesName (tree_species tree) @ ''INIT''])
      in if tree_stage tree = SEED then SeedScene (SeedObject dna (tree_species tree))
         else TreeScene (Branch (0, 0, 0) (0, 0, 0) 1.5 0.3 0 (complexity3D (tree_stage tree))
                           (tree_species tree) (tree_pruningCount tree) (tree_wiringState tree)
                           dna))"

subsection \<open>The radius decay in double precision\<close>

text \<open>
  The generator is modelled on exact reals. The numbers of the program are IEEE 754
  doubles, so the product \<^verbatim>\<open>radius * 0.7\<close> is the real product rounded to the nearest
  double, ties to even. The doubles around \<open>x\<close> are the multiples of \<open>ulp x\<close>: of
  \<open>2\<^sup>-\<^sup>1\<^sup>0\<^sup>7\<^sup>4\<close> below \<open>2\<^sup>-\<^sup>1\<^sup>0\<^sup>2\<^sup>1\<close> (the subnormals and the first binade), and twice as
  coarse in each binade above. Overflow to \<^verbatim>\<open>Infinity\<close> is not modelled.
\<close>

definition minDouble :: real where
  "minDouble = 1 / 2 ^ 1074"

fun ulpFrom :: "nat \<Rightarrow> real \<Rightarrow> real \<Rightarrow> real" where
  "ulpFrom 0 u x = u"
| "ulpFrom (Suc k) u x = (if x < u * 2 ^ 53 then u else ulpFrom k (2 * u) x)"

definition ulp :: "real \<Rightarrow> real" where
  "ulp x = ulpFrom 2045 minDouble \<bar>x\<bar>"

definition roundEven :: "real \<Rightarrow> int" where
  "roundEven x =
     (let f = \<lfloor>x\<rfloor>; d = x - of_int f
      in if d < 1 / 2 then f else if 1 / 2 < d then f + 1 else if even f then f else f + 1)"

definition roundToDouble :: "real \<Rightarrow> real" where
  "roundToDouble x = of_int (roundEven (x / ulp x)) * ulp x"

definition mulDouble :: "real \<Rightarrow> real \<Rightarrow> real" where
  "mulDouble a b = roundToDouble (a * b)"

text \<open>The double that the literal \<^verbatim>\<open>0.7\<close> denotes, and \<^verbatim>\<open>nextRadius = radius * 0.7\<close>.\<close>

definition double07 :: real where
  "double07 = 6305039478318694 / 2 ^ 53"

definition nextRadiusDouble :: "real \<Rightarrow> real" where
  "nextRadiusDouble radius = mulDouble radius double07"

subsection \<open>The 2D canvas renderer\<close>

text \<open>
  The canvas calls of one frame are kept as the tree of \<^verbatim>\<open>drawBranch\<close> calls: each call
  records its stroke, the leaf it draws and the rotated children. \<^verbatim>\<open>Math.random()\<close> is
  the stream \<open>rand\<close> read at position \<open>k\<close>; every function returns the next position.
\<close>

datatype Leaf2D = Leaf2D
  (leaf_sway: real)
  (leaf_fillStyle: string)
  (leaf_radiusX: real)
  (leaf_radiusY: real)
  (leaf_needles: "(real \<times> real) list")

definition drawLeaf ::
  "TreeSpecies \<Rightarrow> SpeciesConfig \<Rightarrow> real \<Rightarrow> real \<Rightarrow> (nat \<Rightarrow> real) \<Rightarrow> nat \<Rightarrow> Leaf2D \<times> nat" where
  "drawLeaf species config scale time rand k =
     (let sway = sin (time * 2 + rand k * 10) * 0.1
      in if species = PINE then
           (Leaf2D sway (colorLeaf config) (6 * scale) (6 * scale)
              (map (\<lambda>i. let ang = (real i / 8) * pi * 2
                        in (cos ang * 12 * scale, sin ang * 12 * scale)) [0 ..< 8]),
            k + 1)
         else if species = CHERRY then
           (Leaf2D sway (if rand (k + 1) > 0.5 then colorLeaf config else ''#fed7aa'')
              (5 * scale) (5 * scale) [],
            k + 2)
         else (Leaf2D sway (colorLeaf config) (8 * scale) (12 * scale) [], k + 1))"

datatype Branch2D = Branch2D
  (s_len: real)
  (s_depth: nat)
  (s_cursor: nat)
  (s_lineWidth: real)
  (s_strokeStyle: string)
  (s_staticCurve: real)
  (s_windSway: real)
  (s_leaf: "Leaf2D option")
  (s_children: "(real \<times> Branch2D) list")

function drawBranch ::
  "real \<Rightarrow> nat \<Rightarrow> nat \<Rightarrow> nat \<Rightarrow> string list \<Rightarrow> TreeSpecies \<Rightarrow> SpeciesConfig \<Rightarrow> real
     \<Rightarrow> (nat \<Rightarrow> real) \<Rightarrow> nat \<Rightarrow> Branch2D \<times> nat"
and drawChildren ::
  "real \<Rightarrow> nat \<Rightarrow> nat \<Rightarrow> nat \<Rightarrow> string list \<Rightarrow> TreeSpecies \<Rightarrow> SpeciesConfig \<Rightarrow> real
     \<Rightarrow> (nat \<Rightarrow> real) \<Rightarrow> nat \<Rightarrow> real \<Rightarrow> nat \<Rightarrow> nat \<Rightarrow> (real \<times> Branch2D) list \<times> nat" where
  "drawBranch len depth maxDepth cursor dna species config time rand k =
     (let width = max 1 ((real maxDepth - real depth) * 3);
          staticCurve = (getDnaFloat dna (cursor + 1) - 0.5) * 20 * (len / 100);
          windSway = sin (time + real depth * 0.5) * (real depth * 1.5)
      in case (if (int depth > int maxDepth - 3 \<or> depth = maxDepth)
                    \<and> getDnaFloat dna (cursor + 99) > 0.4
               then (case drawLeaf species config 1.5 time rand k of
                       (leaf, k') \<Rightarrow> (Some leaf, k'))
               else (None, k)) of
           (leaf, k1) \<Rightarrow>
             (case (if depth < maxDepth then
                      let branchCount = nat \<lfloor>getDnaFloat dna (cursor + 2) * 2\<rfloor> + 2;
                          spread = (if species = OAK then 1.0
                                    else if species = PINE then 0.6 else 0.8)
                      in drawChildren len depth maxDepth cursor dna species config time rand
                           branchCount spread 0 k1
                    else ([], k1)) of
                (children, k2) \<Rightarrow>
                  (Branch2D len depth cursor width (colorBark config) staticCurve windSway
                     leaf children, k2)))"
| "drawChildren len depth maxDepth cursor dna species config time rand branchCount spread i k =
     (if i < branchCount then
        let variance = (getDnaFloat dna (cursor + 10 + i) - 0.5) * 0.5;
            baseAngle = ((real i / (real branchCount - 1)) - 0.5) * spread * 2;
            branchSway = sin (time * 1.5 + real depth) * 0.05;
            angle = baseAngle + variance + branchSway;
            decay = 0.7 + getDnaFloat dna (cursor + 20 + i) * 0.1
        in case drawBranch (len * decay) (depth + 1) maxDepth (cursor + 100 + i * 50) dna
                  species config time rand k of
             (child, k1) \<Rightarrow>
               (case drawChildren len depth maxDepth cursor dna species config time rand
                       branchCount spread (i + 1) k1 of
                  (others, k2) \<Rightarrow> ((angle, child) # others, k2))
      else ([], k))"
  by pat_completeness auto
termination
  by (relation
       "inv_image (less_than <*lex*> less_than)
          (\<lambda>x. case x of
             Inl (len, depth, maxDepth, rest) \<Rightarrow> (2 * (Suc maxDepth - depth), 0)
           | Inr (len, depth, maxDepth, cursor, dna, species, config, time, rand,
                  branchCount, spread, i, k) \<Rightarrow>
               (2 * (maxDepth - depth) + 1, branchCount - i))")
     auto

declare drawBranch.simps [simp del] drawChildren.simps [simp del]

text \<open>\<^verbatim>\<open>drawSeed\<close>: the centre, the pulsing scale, the body colour and the sprout's sway.\<close>

datatype Seed2D = Seed2D (seed_cx: real) (seed_cy: real) (seed_pulse: real)
  (seed_fillStyle: string) (seed_sway: real)

definition drawSeed :: "real \<Rightarrow> real \<Rightarrow> string \<Rightarrow> real \<Rightarrow> Seed2D" where
  "drawSeed width height color time =
     Seed2D (width / 2) (height - 100) (sin (time * 2) * 0.1 + 4) color (sin (time * 3) * 5)"

text \<open>The \<^verbatim>\<open>complexity\<close> of the 2D \<^verbatim>\<open>TreeRender\<close>.\<close>

fun complexity2D :: "GrowthStage \<Rightarrow> nat" where
  "complexity2D SEED = 0"
| "complexity2D SAPLING = 4"
| "complexity2D ADULT = 7"
| "complexity2D MASTER = 9"

datatype Render2D = SeedFrame Seed2D | TreeFrame Branch2D

text \<open>One frame of the 2D \<^verbatim>\<open>TreeRender\<close>, at clock time \<open>time\<close>.\<close>

definition TreeRender2D :: "TreeData \<Rightarrow> real \<Rightarrow> (nat \<Rightarrow> real) \<Rightarrow> nat \<Rightarrow> Render2D \<times> nat" where
  "TreeRender2D tree time rand k =
     (let speciesConfig = SPECIES_CONFIG (tree_species tree)
      in if tree_stage tree = SEED
         then (SeedFrame (drawSeed 1024 1024 (colorBark speciesConfig) time), k)
         else
           let startLen = 140;
               dna = (case tree_dna tree of Some d \<Rightarrow> d
                      | None \<Rightarrow> [speciesName (tree_species tree)])
           in case drawBranch startLen 1 (complexity2D (tree_stage tree)) 0 dna
                     (tree_species tree) speciesConfig time rand k of
                (b, k') \<Rightarrow> (TreeFrame b, k'))"

subsection \<open>The genetic history encoder\<close>

text \<open>
  \<^verbatim>\<open>Math.floor(x).toString(16)\<close> on a real: the sign, then the digits of the magnitude.
\<close>

definition floorToString :: "nat \<Rightarrow> real \<Rightarrow> string" where
  "floorToString radix x =
     (if \<lfloor>x\<rfloor> < 0 then ''-'' @ numberToString radix (nat (- \<lfloor>x\<rfloor>))
      else numberToString radix (nat \<lfloor>x\<rfloor>))"

record Stats =
  health :: real
  water :: real
  fertilizer :: real

text \<open>
  \<^verbatim>\<open>generateDNASegment(prefix, stats?)\<close>. Either branch calls \<^verbatim>\<open>Math.random()\<close> once and
  renders the draw with \<^verbatim>\<open>toString(36)\<close>; that rendering is the argument \<open>random36\<close>.
\<close>

definition generateDNASegment :: "string \<Rightarrow> Stats option \<Rightarrow> string \<Rightarrow> string" where
  "generateDNASegment prefix stats random36 =
     (case stats of
        None \<Rightarrow> prefix @ ''-'' @ toUpperCase (substring random36 2 6)
      | Some st \<Rightarrow>
          let h = padStart0 (toUpperCase (floorToString 16 (health st))) 2;
              w = padStart0 (toUpperCase (floorToString 16 (water st))) 2;
              f = padStart0 (toUpperCase (floorToString 16 (fertilizer st))) 2;
              rnd = toUpperCase (substring random36 2 4)
          in ''EVO-'' @ h @ w @ f @ ''-'' @ rnd)"

text \<open>
  What \<^verbatim>\<open>toString(36)\<close> gives for a draw in \<open>[0, 1)\<close>: \<^verbatim>\<open>0\<close> for zero, and otherwise
  \<^verbatim>\<open>0.\<close> followed by at least one base-36 digit.
\<close>

definition isDigit36 :: "char \<Rightarrow> bool" where
  "isDigit36 c = (c \<in> set ''0123456789abcdefghijklmnopqrstuvwxyz'')"

definition isRandom36 :: "string \<Rightarrow> bool" where
  "isRandom36 s =
     (s = ''0'' \<or> (take 2 s = ''0.'' \<and> drop 2 s \<noteq> [] \<and> list_all isDigit36 (drop 2 s)))"

subsection \<open>Observations on rendered trees\<close>

text \<open>All nodes of a rendered 3D branch, the branch itself first.\<close>

fun allNodes :: "BranchNode \<Rightarrow> BranchNode list" where
  "allNodes (BranchNode p r l ra nr d b f cs) =
     BranchNode p r l ra nr d b f cs # concat (map allNodes cs)"

fun branchNodes3D :: "Render3D \<Rightarrow> BranchNode list" where
  "branchNodes3D (SeedScene v) = []"
| "branchNodes3D (TreeScene None) = []"
| "branchNodes3D (TreeScene (Some n)) = allNodes n"

text \<open>The part of a tree at depth at most \<open>k\<close>: deeper nodes are cut off.\<close>

fun keepToDepth :: "nat \<Rightarrow> BranchNode \<Rightarrow> BranchNode" where
  "keepToDepth k (BranchNode p r l ra nr d b f cs) =
     BranchNode p r l ra nr d b f (if d < k then map (keepToDepth k) cs else [])"

fun sceneToDepth :: "nat \<Rightarrow> Render3D \<Rightarrow> Render3D" where
  "sceneToDepth k (SeedScene v) = SeedScene v"
| "sceneToDepth k (TreeScene b) = TreeScene (map_option (keepToDepth k) b)"

text \<open>Adding an angle to the z rotation of a node and of everything below it.\<close>

fun addRotZ :: "real \<Rightarrow> BranchNode \<Rightarrow> BranchNode" where
  "addRotZ a (BranchNode p (rx, ry, rz) l ra nr d b f cs) =
     BranchNode p (rx, ry, rz + a) l ra nr d b f (map (addRotZ a) cs)"

text \<open>The same for every node below the root, which keeps its own rotation.\<close>

fun shear :: "real \<Rightarrow> BranchNode \<Rightarrow> BranchNode" where
  "shear a (BranchNode p r l ra nr d b f cs) =
     BranchNode p r l ra nr d b f (map (addRotZ a) cs)"

fun shearScene :: "real \<Rightarrow> Render3D \<Rightarrow> Render3D" where
  "shearScene a (SeedScene v) = SeedScene v"
| "shearScene a (TreeScene b) = TreeScene (map_option (shear a) b)"

text \<open>A tree with every z rotation forgotten.\<close>

fun dropRotZ :: "BranchNode \<Rightarrow> BranchNode" where
  "dropRotZ (BranchNode p (rx, ry, rz) l ra nr d b f cs) =
     BranchNode p (rx, ry, 0) l ra nr d b f (map dropRotZ cs)"

fun dropRotZScene :: "Render3D \<Rightarrow> Render3D" where
  "dropRotZScene (SeedScene v) = SeedScene v"
| "dropRotZScene (TreeScene b) = TreeScene (map_option dropRotZ b)"

text \<open>A branch with another rotation of its own.\<close>

fun withRotation :: "vec3 \<Rightarrow> BranchNode \<Rightarrow> BranchNode" where
  "withRotation r' (BranchNode p r l ra nr d b f cs) = BranchNode p r' l ra nr d b f cs"

text \<open>All \<^verbatim>\<open>drawBranch\<close> calls of a 2D frame.\<close>

fun allBranches :: "Branch2D \<Rightarrow> Branch2D list" where
  "allBranches (Branch2D l d c w st sc ws lf cs) =
     Branch2D l d c w st sc ws lf cs # concat (map (\<lambda>ac. allBranches (snd ac)) cs)"

fun branchNodes2D :: "Render2D \<Rightarrow> Branch2D list" where
  "branchNodes2D (SeedFrame v) = []"
| "branchNodes2D (TreeFrame b) = allBranches b"

text \<open>
  A 2D frame without what \<^verbatim>\<open>drawLeaf\<close> takes from \<^verbatim>\<open>Math.random()\<close>: the sway of a leaf
  and its fill colour. Which branches carry a leaf, and the leaf's shape, stay.
\<close>

fun leafShapeOnly :: "Leaf2D \<Rightarrow> Leaf2D" where
  "leafShapeOnly (Leaf2D sway fill rx ry needles) = Leaf2D 0 [] rx ry needles"

fun skeleton :: "Branch2D \<Rightarrow> Branch2D" where
  "skeleton (Branch2D l d c w st sc ws lf cs) =
     Branch2D l d c w st sc ws (map_option leafShapeOnly lf)
       (map (\<lambda>ac. (fst ac, skeleton (snd ac))) cs)"

fun skeletonFrame :: "Render2D \<Rightarrow> Render2D" where
  "skeletonFrame (SeedFrame v) = SeedFrame v"
| "skeletonFrame (TreeFrame b) = TreeFrame (skeleton b)"

subsection \<open>The specified token format\<close>

text \<open>
  The format of a vital as the specification words it: exactly two uppercase hexadecimal
  digits, zero-padded. It is compared with what \<^verbatim>\<open>generateDNASegment\<close> computes.
\<close>

definition hex2 :: "nat \<Rightarrow> string" where
  "hex2 n = [''0123456789ABCDEF'' ! (n div 16), ''0123456789ABCDEF'' ! (n mod 16)]"

definition isUpper36 :: "char \<Rightarrow> bool" where
  "isUpper36 c = (c \<in> set ''0123456789ABCDEFGHIJKLMNOPQRSTUVWXYZ'')"

subsection \<open>Example records\<close>

text \<open>
  A record as \<^verbatim>\<open>handleCreateTree\<close> makes it (age 0, water 50, fertilizer 50, health 100),
  with the generator's inputs given.
\<close>

definition exampleTree :: "TreeSpecies \<Rightarrow> GrowthStage \<Rightarrow> string list \<Rightarrow> nat \<Rightarrow> nat \<Rightarrow> TreeData" where
  "exampleTree sp st history p w =
     \<lparr>tree_id = ''tree'', tree_species = sp, tree_stage = st, tree_age = 0, tree_water = 50,
      tree_fertilizer = 50, tree_health = 100, tree_seedValue = 0, tree_pruningCount = p,
      tree_wiringState = w, tree_dna = Some history, tree_name = ''My Tree'',
      tree_createdAt = 0\<rparr>"

section \<open>Properties\<close>

subsection \<open>Rendering numbers\<close>

lemma digitChar_code:
  "d < 36 \<Longrightarrow> (of_char (digitChar d) :: nat) = (if d < 10 then 48 + d else 87 + d)"
proof -
  have "\<forall>d \<in> set [0..<36]. (of_char (digitChar d) :: nat) = (if d < 10 then 48 + d else 87 + d)"
    by (simp add: digitChar_def upt_rec)
  then show "d < 36 \<Longrightarrow> (of_char (digitChar d) :: nat) = (if d < 10 then 48 + d else 87 + d)"
    by simp
qed

lemma digitChar_inj: "a < 36 \<Longrightarrow> b < 36 \<Longrightarrow> digitChar a = digitChar b \<Longrightarrow> a = b"
proof -
  assume a: "a < 36" and b: "b < 36" and e: "digitChar a = digitChar b"
  have "(of_char (digitChar a) :: nat) = of_char (digitChar b)" using e by simp
  then show "a = b" using a b by (simp add: digitChar_code split: if_splits)
qed

lemma numberToString_small: "n < radix \<Longrightarrow> numberToString radix n = [digitChar n]"
  by (subst numberToString.simps) simp

lemma numberToString_step:
  "2 \<le> radix \<Longrightarrow> \<not> n < radix \<Longrightarrow>
   numberToString radix n = numberToString radix (n div radix) @ [digitChar (n mod radix)]"
  by (subst numberToString.simps) simp

lemma numberToString_nonempty: "numberToString radix n \<noteq> []"
  by (subst numberToString.simps) simp

lemma numberToString_length1:
  "2 \<le> radix \<Longrightarrow> length (numberToString radix n) = 1 \<longleftrightarrow> n < radix"
proof -
  assume r: "2 \<le> radix"
  show ?thesis
  proof (cases "n < radix")
    case True
    then show ?thesis using numberToString_small [of n radix] by simp
  next
    case False
    have "numberToString radix n =
        numberToString radix (n div radix) @ [digitChar (n mod radix)]"
      using r False by (rule numberToString_step)
    then show ?thesis using False numberToString_nonempty [of radix "n div radix"]
      by (cases "numberToString radix (n div radix)") auto
  qed
qed

lemma numberToString_inj:
  "2 \<le> radix \<Longrightarrow> radix \<le> 36 \<Longrightarrow> numberToString radix n = numberToString radix m \<Longrightarrow> n = m"
proof (induction n arbitrary: m rule: less_induct)
  case (less n)
  note r = \<open>2 \<le> radix\<close> \<open>radix \<le> 36\<close>
  show ?case
  proof (cases "n < radix")
    case True
    then have "length (numberToString radix m) = 1"
      using less.prems numberToString_length1 [of radix n] by simp
    then have m: "m < radix" using numberToString_length1 [of radix m] r by simp
    have "numberToString radix n = [digitChar n]" "numberToString radix m = [digitChar m]"
      using True m by (simp_all only: numberToString_small)
    then have "digitChar n = digitChar m" using less.prems by simp
    then show ?thesis using digitChar_inj [of n m] True m r by simp
  next
    case False
    then have "length (numberToString radix m) \<noteq> 1"
      using less.prems numberToString_length1 [of radix n] by simp
    then have m: "\<not> m < radix" using numberToString_length1 [of radix m] r by simp
    have en: "numberToString radix n =
        numberToString radix (n div radix) @ [digitChar (n mod radix)]"
      using r(1) False by (rule numberToString_step)
    have em: "numberToString radix m =
        numberToString radix (m div radix) @ [digitChar (m mod radix)]"
      using r(1) m by (rule numberToString_step)
    from en em less.prems(3)
    have q: "numberToString radix (n div radix) = numberToString radix (m div radix)"
      and d: "digitChar (n mod radix) = digitChar (m mod radix)" by simp_all
    have "n div radix < n" using False r by (simp add: div_less_dividend)
    then have dv: "n div radix = m div radix" using less.IH [OF _ r q] by simp
    have "n mod radix < radix" "m mod radix < radix" using r by simp_all
    then have "n mod radix < 36" "m mod radix < 36" using r by linarith+
    then have md: "n mod radix = m mod radix" using d by (rule digitChar_inj)
    have "n = radix * (n div radix) + n mod radix" by simp
    also have "\<dots> = radix * (m div radix) + m mod radix" using dv md by simp
    also have "\<dots> = m" by simp
    finally show ?thesis .
  qed
qed

lemma str_inj: "str n = str m \<longleftrightarrow> n = m"
  using numberToString_inj [of 10 n m] by (auto simp: str_def)

lemma digitChar_decimal: "d < 10 \<Longrightarrow> digitChar d \<in> set ''0123456789''"
proof -
  have "\<forall>d \<in> set [0..<10]. digitChar d \<in> set ''0123456789''"
    by (simp add: digitChar_def upt_rec)
  then show "d < 10 \<Longrightarrow> digitChar d \<in> set ''0123456789''" by simp
qed

lemma str_digits: "c \<in> set (str n) \<Longrightarrow> c \<in> set ''0123456789''"
proof (induction n rule: less_induct)
  case (less n)
  show ?case
  proof (cases "n < 10")
    case True
    then have "str n = [digitChar n]" by (simp add: str_def numberToString_small)
    then show ?thesis using less.prems digitChar_decimal [of n] True by simp
  next
    case False
    then have e: "str n = str (n div 10) @ [digitChar (n mod 10)]"
      by (simp add: str_def numberToString_step)
    have "n div 10 < n" using False by simp
    then show ?thesis
      using less.IH [of "n div 10"] less.prems e digitChar_decimal [of "n mod 10"] by auto
  qed
qed

lemma unitFloat_range: "0 \<le> unitFloat v \<and> unitFloat v < 1"
  by (simp add: unitFloat_def mille_def)

lemma getDnaRandom_range: "0 \<le> getDnaRandom dna depth offset \<and> getDnaRandom dna depth offset < 1"
  by (simp add: getDnaRandom_def unitFloat_range)

lemma getDnaFloat_range: "0 \<le> getDnaFloat dna cursor \<and> getDnaFloat dna cursor < 1"
  by (simp add: getDnaFloat_def unitFloat_range)


subsection \<open>Hash keys\<close>

lemma dnaKey_inj: "dnaKey dna depth a = dnaKey dna depth b \<longleftrightarrow> a = b"
  by (simp add: dnaKey_def str_inj)

lemma takeWhile_stop:
  "\<forall>c \<in> set xs. P c \<Longrightarrow> \<not> P z \<Longrightarrow> takeWhile P (xs @ z # ys) = xs"
  by (induction xs) auto

lemma after_dash:
  assumes "CHR ''-'' \<notin> set x" and "CHR ''-'' \<notin> set y"
    and "a @ CHR ''-'' # x = b @ CHR ''-'' # y"
  shows "x = y"
proof -
  let ?P = "\<lambda>c. c \<noteq> CHR ''-''"
  have "\<forall>c \<in> set (rev x). ?P c" "\<forall>c \<in> set (rev y). ?P c" using assms(1,2) by auto
  then have "takeWhile ?P (rev x @ CHR ''-'' # rev a) = rev x"
    "takeWhile ?P (rev y @ CHR ''-'' # rev b) = rev y"
    by (simp_all only: takeWhile_stop simp_thms)
  moreover have "rev x @ CHR ''-'' # rev a = rev y @ CHR ''-'' # rev b"
    using arg_cong [OF assms(3), of rev] by simp
  ultimately have "rev x = rev y" by simp
  then show ?thesis by simp
qed

lemma str_no_dash: "CHR ''-'' \<notin> set (str n)"
  using str_digits [of "CHR ''-''" n] by auto

lemma floatKey_inj: "floatKey dna a = floatKey dna' b \<Longrightarrow> a = b"
proof -
  assume "floatKey dna a = floatKey dna' b"
  then have "segment2D dna a @ CHR ''-'' # str a = segment2D dna' b @ CHR ''-'' # str b"
    by (simp add: floatKey_def)
  from after_dash [OF str_no_dash str_no_dash this] show "a = b" by (simp add: str_inj)
qed


subsection \<open>The 3D generator near the root\<close>

lemma Branch_None_iff:
  "Branch position rotation len radius depth maxDepth species pruneState wireState dna = None
     \<longleftrightarrow> depth > 1 \<and> getDnaRandom dna depth (300 + pruneState) > 0.85"
  by (subst Branch.simps) (simp add: Let_def)

lemma keepToDepth_Branch:
  "k \<le> depth \<Longrightarrow>
   map_option (keepToDepth k)
     (Branch position rotation len radius depth maxDepth species pruneState wireState dna) =
   (if depth > 1 \<and> getDnaRandom dna depth (300 + pruneState) > 0.85 then None
    else Some (BranchNode position rotation len radius (radius * 0.7) depth
                 (colorBark (SPECIES_CONFIG species))
                 (if depth \<ge> maxDepth
                  then Some (colorLeaf (SPECIES_CONFIG species),
                             (getDnaRandom dna maxDepth 999 - 0.5) * 0.1)
                  else None) []))"
  by (subst Branch.simps) (simp add: Let_def)

lemma map_rendered: "map f (rendered x) = rendered (map_option f x)"
  by (cases x) simp_all

lemma keepToDepth1_cong:
  assumes a0: "\<And>offset. getDnaRandom dna 0 offset = getDnaRandom dna' 0 offset"
    and a1: "\<And>offset. getDnaRandom dna (Suc 0) offset = getDnaRandom dna' (Suc 0) offset"
  shows "map_option (keepToDepth (Suc 0))
           (Branch position rotation len radius 0 maxDepth species pruneState wireState dna) =
         map_option (keepToDepth (Suc 0))
           (Branch position rotation len radius 0 maxDepth species pruneState' wireState dna')"
proof -
  consider "maxDepth = 0" | "maxDepth = Suc 0" | "maxDepth > Suc 0" by linarith
  then show ?thesis
  proof cases
    case 1
    then show ?thesis
      by (subst (1 2) Branch.simps) (simp add: Let_def a0)
  next
    case 2
    then show ?thesis
      by (subst (1 2) Branch.simps)
        (simp add: Let_def map_concat map_rendered keepToDepth_Branch upt_rec a0 a1)
  next
    case 3
    then show ?thesis
      by (subst (1 2) Branch.simps)
        (simp add: Let_def map_concat map_rendered keepToDepth_Branch upt_rec a0 a1)
  qed
qed


lemmas hash_eval =
  getDnaRandom_def getDnaFloat_def dnaKey_def floatKey_def segment_def segment2D_def
  segmentIndex_def segmentIdx_def arrayGet_def orElse_def truthy_def str_def
  numberToString.simps digitChar_def unitFloat_def mille_def cyrb53_def imul_def charCodeAt_def

lemma segment_empty: "segment [] depth = ''DEFAULT''"
  by (simp add: segment_def segmentIndex_def arrayGet_def orElse_def truthy_def)

lemma segment2D_empty: "segment2D [] cursor = ''SEED''"
  by (simp add: segment2D_def segmentIdx_def arrayGet_def truthy_def)

lemma TreeRender3D_renders: "TreeRender3D tree \<noteq> TreeScene None"
  by (simp add: TreeRender3D_def Let_def Branch_None_iff)


subsection \<open>The 3D generator at every depth\<close>

lemma Branch_unfold:
  "Branch position rotation len radius depth maxDepth species pruneState wireState dna =
   (if depth > 1 \<and> getDnaRandom dna depth (300 + pruneState) > 0.85 then None
    else Some (BranchNode position rotation len radius (radius * 0.7) depth
           (colorBark (SPECIES_CONFIG species))
           (if maxDepth \<le> depth
            then Some (colorLeaf (SPECIES_CONFIG species),
                       (getDnaRandom dna maxDepth 999 - 0.5) * 0.1)
            else None)
           (if maxDepth \<le> depth then []
            else rendered (Branch (0, len, 0)
                    (getDnaRandom dna (depth + 1) 0 * 0.6, 0,
                     0.6 + (getDnaRandom dna depth 200 * 0.6 - 0.3) + real wireState * 0.2)
                    (len * (0.75 + getDnaRandom dna depth 100 * 0.1)) (radius * 0.7)
                    (depth + 1) maxDepth species pruneState wireState dna)
               @ rendered (Branch (0, len, 0)
                    (getDnaRandom dna (depth + 1) 50 * 0.6, 0,
                     - 0.6 + (getDnaRandom dna depth 200 * 0.6 - 0.3) + real wireState * 0.2)
                    (len * (0.75 + getDnaRandom dna depth 100 * 0.1)) (radius * 0.7)
                    (depth + 1) maxDepth species pruneState wireState dna))))"
  by (subst Branch.simps) (simp add: Let_def upt_rec)

lemma Branch_root_fields:
  "Branch position rotation len radius depth maxDepth species pruneState wireState dna = Some n
   \<Longrightarrow> n_position n = position \<and> n_rotation n = rotation \<and> n_length n = len
       \<and> n_radius n = radius \<and> n_nextRadius n = radius * 0.7 \<and> n_depth n = depth"
  by (subst (asm) Branch_unfold) (auto split: if_splits)

lemma rendered_set: "c \<in> set (rendered x) \<longleftrightarrow> x = Some c"
  by (cases x) auto

lemma Branch_children:
  assumes "Branch position rotation len radius depth maxDepth species pruneState wireState dna
             = Some n"
    and "c \<in> set (n_children n)"
  shows "depth < maxDepth \<and>
         (\<exists>rotation'. Branch (0, len, 0) rotation'
             (len * (0.75 + getDnaRandom dna depth 100 * 0.1)) (radius * 0.7)
             (depth + 1) maxDepth species pruneState wireState dna = Some c)"
proof -
  from assms(1) have nd: "\<not> (depth > 1 \<and> getDnaRandom dna depth (300 + pruneState) > 0.85)"
    using Branch_None_iff [of position rotation len radius depth maxDepth species pruneState
        wireState dna] by auto
  show ?thesis
  proof (cases "maxDepth \<le> depth")
    case True
    with assms nd show ?thesis
      by (subst (asm) Branch_unfold) (auto split: if_splits)
  next
    case False
    let ?A = "Branch (0, len, 0)
                    (getDnaRandom dna (depth + 1) 0 * 0.6, 0,
                     0.6 + (getDnaRandom dna depth 200 * 0.6 - 0.3) + real wireState * 0.2)
                    (len * (0.75 + getDnaRandom dna depth 100 * 0.1)) (radius * 0.7)
                    (depth + 1) maxDepth species pruneState wireState dna"
    let ?B = "Branch (0, len, 0)
                    (getDnaRandom dna (depth + 1) 50 * 0.6, 0,
                     - 0.6 + (getDnaRandom dna depth 200 * 0.6 - 0.3) + real wireState * 0.2)
                    (len * (0.75 + getDnaRandom dna depth 100 * 0.1)) (radius * 0.7)
                    (depth + 1) maxDepth species pruneState wireState dna"
    from assms(1) nd False
    have "n_children n = rendered ?A @ rendered ?B"
      by (subst (asm) Branch_unfold) (auto split: if_splits)
    with assms(2) have "c \<in> set (rendered ?A) \<or> c \<in> set (rendered ?B)" by simp
    then have "?A = Some c \<or> ?B = Some c" unfolding rendered_set .
    then show ?thesis using False by auto
  qed
qed

lemma allNodes_cases:
  "m \<in> set (allNodes n) \<longleftrightarrow> m = n \<or> (\<exists>c \<in> set (n_children n). m \<in> set (allNodes c))"
  by (cases n) auto

lemma Branch_depth_bound:
  "depth \<le> maxDepth \<Longrightarrow>
   Branch position rotation len radius depth maxDepth species pruneState wireState dna = Some n
   \<Longrightarrow> m \<in> set (allNodes n) \<Longrightarrow> n_depth m \<le> maxDepth"
proof (induction "maxDepth - depth" arbitrary: depth position rotation len radius n)
  case 0
  then have "n_children n = []" using Branch_children [OF "0.prems"(2)]
    by (cases "n_children n") auto
  then have "m = n" using "0.prems"(3) allNodes_cases [of m n] by simp
  then show ?case using Branch_root_fields [OF "0.prems"(2)] "0.prems"(1) by simp
next
  case (Suc k)
  from Suc.prems(3) consider "m = n" | c where "c \<in> set (n_children n)" "m \<in> set (allNodes c)"
    using allNodes_cases [of m n] by auto
  then show ?case
  proof cases
    case 1
    then show ?thesis using Branch_root_fields [OF Suc.prems(2)] Suc.prems(1) by simp
  next
    case 2
    from Branch_children [OF Suc.prems(2) 2(1)] obtain rotation' where
      lt: "depth < maxDepth" and
      c: "Branch (0, len, 0) rotation' (len * (0.75 + getDnaRandom dna depth 100 * 0.1))
            (radius * 0.7) (depth + 1) maxDepth species pruneState wireState dna = Some c"
      by auto
    have k: "k = maxDepth - (depth + 1)" using Suc.hyps(2) by simp
    have le: "depth + 1 \<le> maxDepth" using lt by simp
    show ?thesis using Suc.hyps(1) [OF k le c 2(2)] .
  qed
qed

lemma Branch_shrinks:
  "0 < len \<Longrightarrow> 0 < radius \<Longrightarrow>
   Branch position rotation len radius depth maxDepth species pruneState wireState dna = Some n
   \<Longrightarrow> m \<in> set (allNodes n) \<Longrightarrow> c \<in> set (n_children m)
   \<Longrightarrow> n_length c < n_length m \<and> n_radius c < n_radius m"
proof (induction "maxDepth - depth" arbitrary: depth position rotation len radius n)
  case 0
  then have e: "n_children n = []" using Branch_children [OF "0.prems"(3)]
    by (cases "n_children n") auto
  then have "m = n" using "0.prems"(4) allNodes_cases [of m n] by simp
  then show ?case using e "0.prems"(5) by simp
next
  case (Suc k)
  let ?f = "0.75 + getDnaRandom dna depth 100 * 0.1"
  have f: "0 < ?f" "?f < 1" using getDnaRandom_range [of dna depth 100] by simp_all
  have len': "0 < len * ?f" "len * ?f < len" using f Suc.prems(1) by simp_all
  have rad': "0 < radius * 0.7" "radius * 0.7 < radius" using Suc.prems(2) by simp_all
  from Suc.prems(4) consider "m = n"
    | c' where "c' \<in> set (n_children n)" "m \<in> set (allNodes c')"
    using allNodes_cases [of m n] by auto
  then show ?case
  proof cases
    case 1
    from Branch_children [OF Suc.prems(3)] Suc.prems(5) 1 obtain rotation' where
      c: "Branch (0, len, 0) rotation' (len * ?f)
            (radius * 0.7) (depth + 1) maxDepth species pruneState wireState dna = Some c"
      by blast
    show ?thesis
      using Branch_root_fields [OF c] Branch_root_fields [OF Suc.prems(3)] 1 len' rad' by simp
  next
    case 2
    from Branch_children [OF Suc.prems(3) 2(1)] obtain rotation' where
      lt: "depth < maxDepth" and
      c': "Branch (0, len, 0) rotation' (len * ?f)
            (radius * 0.7) (depth + 1) maxDepth species pruneState wireState dna = Some c'"
      by auto
    have k: "k = maxDepth - (depth + 1)" using Suc.hyps(2) by simp
    show ?thesis using Suc.hyps(1) [OF k len'(1) rad'(1) c' 2(2) Suc.prems(5)] .
  qed
qed

lemma Branch_wire:
  "Branch position (rx, ry, rz + real wireState * 0.2) len radius depth maxDepth species
     pruneState wireState dna =
   map_option (addRotZ (real wireState * 0.2))
     (Branch position (rx, ry, rz) len radius depth maxDepth species pruneState 0 dna)"
proof (induction "maxDepth - depth" arbitrary: depth position rx ry rz len radius)
  case 0
  then have "maxDepth \<le> depth" by simp
  then show ?case
    apply (simp only:
        Branch_unfold [of position "(rx, ry, rz + real wireState * 0.2)" len radius depth
          maxDepth species pruneState wireState dna]
        Branch_unfold [of position "(rx, ry, rz)" len radius depth maxDepth species
          pruneState 0 dna])
    apply simp
    done
next
  case (Suc k)
  then have k: "k = maxDepth - (depth + 1)" and lt: "\<not> maxDepth \<le> depth" by simp_all
  note IH = Suc.hyps(1) [OF k]
  have z: "\<And>b::real. b + real (0::nat) * 0.2 = b" by simp
  show ?case
    apply (simp only:
        Branch_unfold [of position "(rx, ry, rz + real wireState * 0.2)" len radius depth
          maxDepth species pruneState wireState dna]
        Branch_unfold [of position "(rx, ry, rz)" len radius depth maxDepth species
          pruneState 0 dna])
    apply (simp only: IH z)
    apply (simp add: lt map_rendered)
    done
qed

lemma Branch_shear:
  "Branch position rotation len radius depth maxDepth species pruneState wireState dna =
   map_option (shear (real wireState * 0.2))
     (Branch position rotation len radius depth maxDepth species pruneState 0 dna)"
proof -
  have z: "\<And>b::real. b + real (0::nat) * 0.2 = b" by simp
  show ?thesis
    apply (simp only:
        Branch_unfold [of position rotation len radius depth
          maxDepth species pruneState wireState dna]
        Branch_unfold [of position rotation len radius depth maxDepth species
          pruneState 0 dna])
    apply (simp only: Branch_wire z)
    apply (simp add: map_rendered)
    done
qed

lemma dropRotZ_addRotZ: "dropRotZ (addRotZ a n) = dropRotZ n"
  by (induction n) (auto simp: case_prod_beta)

lemma Branch_root_children:
  "0 < maxDepth \<Longrightarrow>
   \<exists>n. Branch position rotation len radius 0 maxDepth species pruneState wireState dna = Some n
       \<and> length (n_children n) = 2"
  by (simp add: Branch_unfold [of _ _ _ _ 0] Branch_unfold [of _ _ _ _ "Suc 0"])

lemma TreeRender3D_wire:
  "TreeRender3D (tree\<lparr>tree_wiringState := w\<rparr>) =
   shearScene (real w * 0.2) (TreeRender3D (tree\<lparr>tree_wiringState := 0\<rparr>))"
  using Branch_shear [of _ _ _ _ _ _ _ _ w]
  by (cases "tree_dna tree") (simp_all add: TreeRender3D_def Let_def)

lemma dropRotZ_shear: "dropRotZ (shear a n) = dropRotZ n"
proof (cases n)
  case (BranchNode p r l ra nr d b f cs)
  obtain rx ry rz where "r = (rx, ry, rz)" by (cases r) auto
  with BranchNode show ?thesis by (simp add: dropRotZ_addRotZ)
qed

lemma dropRotZScene_shear: "dropRotZScene (shearScene a s) = dropRotZScene s"
proof (cases s)
  case (SeedScene v)
  then show ?thesis by simp
next
  case (TreeScene b)
  then show ?thesis by (cases b) (simp_all add: dropRotZ_shear)
qed

lemma Branch_withRotation:
  "Branch position rotation' len radius depth maxDepth species pruneState wireState dna =
   map_option (withRotation rotation')
     (Branch position rotation len radius depth maxDepth species pruneState wireState dna)"
  by (simp only:
      Branch_unfold [of position rotation' len radius depth maxDepth species pruneState
        wireState dna]
      Branch_unfold [of position rotation len radius depth maxDepth species pruneState
        wireState dna]) simp

lemma withRotation_fields:
  "n_children (withRotation r c) = n_children c \<and> n_length (withRotation r c) = n_length c
   \<and> n_radius (withRotation r c) = n_radius c \<and> n_rotation (withRotation r c) = r"
  by (cases c) simp

lemma Branch_siblings:
  assumes "Branch position rotation len radius depth maxDepth species pruneState wireState dna
             = Some n"
  shows "n_children n = [] \<or>
         (\<exists>c0 c1. n_children n = [c0, c1]
            \<and> n_length c0 = n_length c1 \<and> n_radius c0 = n_radius c1
            \<and> snd (snd (n_rotation c0)) - snd (snd (n_rotation c1)) = 1.2
            \<and> fst (n_rotation c0) = getDnaRandom dna (depth + 1) (0 * 50) * 0.6
            \<and> fst (n_rotation c1) = getDnaRandom dna (depth + 1) (1 * 50) * 0.6
            \<and> n_children c0 = n_children c1)"
proof -
  let ?r0 = "(getDnaRandom dna (depth + 1) 0 * 0.6, 0,
              0.6 + (getDnaRandom dna depth 200 * 0.6 - 0.3) + real wireState * 0.2)"
  let ?r1 = "(getDnaRandom dna (depth + 1) 50 * 0.6, 0,
              - 0.6 + (getDnaRandom dna depth 200 * 0.6 - 0.3) + real wireState * 0.2)"
  let ?A = "Branch (0, len, 0) ?r0 (len * (0.75 + getDnaRandom dna depth 100 * 0.1))
              (radius * 0.7) (depth + 1) maxDepth species pruneState wireState dna"
  let ?B = "Branch (0, len, 0) ?r1 (len * (0.75 + getDnaRandom dna depth 100 * 0.1))
              (radius * 0.7) (depth + 1) maxDepth species pruneState wireState dna"
  have ch: "n_children n = (if maxDepth \<le> depth then [] else rendered ?A @ rendered ?B)"
    using assms by (subst (asm) Branch_unfold) (auto split: if_splits)
  have B: "?B = map_option (withRotation ?r1) ?A" by (rule Branch_withRotation)
  show ?thesis
  proof (cases "maxDepth \<le> depth \<or> ?A = None")
    case True
    then show ?thesis using ch B by auto
  next
    case False
    then obtain c where c: "?A = Some c" by auto
    have r: "n_rotation c = ?r0" using Branch_root_fields [OF c] by simp
    have "n_children n = [c, withRotation ?r1 c]" using False ch B c by simp
    then show ?thesis using r by (simp add: withRotation_fields)
  qed
qed


subsection \<open>The 2D renderer\<close>

lemma allBranches_cases:
  "b \<in> set (allBranches t) \<longleftrightarrow>
     b = t \<or> (\<exists>ac \<in> set (s_children t). b \<in> set (allBranches (snd ac)))"
  by (cases t) auto

lemma drawChildren_eq:
  "drawChildren len depth maxDepth cursor dna species config time rand branchCount spread i k =
     (if i < branchCount then
        ((((real i / (real branchCount - 1)) - 0.5) * spread * 2
            + (getDnaFloat dna (cursor + 10 + i) - 0.5) * 0.5
            + sin (time * 1.5 + real depth) * 0.05,
          fst (drawBranch (len * (0.7 + getDnaFloat dna (cursor + 20 + i) * 0.1)) (depth + 1)
                 maxDepth (cursor + 100 + i * 50) dna species config time rand k))
         # fst (drawChildren len depth maxDepth cursor dna species config time rand
                  branchCount spread (i + 1)
                  (snd (drawBranch (len * (0.7 + getDnaFloat dna (cursor + 20 + i) * 0.1))
                          (depth + 1) maxDepth (cursor + 100 + i * 50) dna species config
                          time rand k))),
         snd (drawChildren len depth maxDepth cursor dna species config time rand
                  branchCount spread (i + 1)
                  (snd (drawBranch (len * (0.7 + getDnaFloat dna (cursor + 20 + i) * 0.1))
                          (depth + 1) maxDepth (cursor + 100 + i * 50) dna species config
                          time rand k))))
      else ([], k))"
  by (subst drawChildren.simps) (simp add: Let_def split: prod.splits)

lemma drawBranch_eq:
  "drawBranch len depth maxDepth cursor dna species config time rand k =
     (Branch2D len depth cursor (max 1 ((real maxDepth - real depth) * 3)) (colorBark config)
        ((getDnaFloat dna (cursor + 1) - 0.5) * 20 * (len / 100))
        (sin (time + real depth * 0.5) * (real depth * 1.5))
        (if (int depth > int maxDepth - 3 \<or> depth = maxDepth)
              \<and> getDnaFloat dna (cursor + 99) > 0.4
         then Some (fst (drawLeaf species config 1.5 time rand k)) else None)
        (if depth < maxDepth then
           fst (drawChildren len depth maxDepth cursor dna species config time rand
                  (nat \<lfloor>getDnaFloat dna (cursor + 2) * 2\<rfloor> + 2)
                  (if species = OAK then 1.0 else if species = PINE then 0.6 else 0.8) 0
                  (if (int depth > int maxDepth - 3 \<or> depth = maxDepth)
                        \<and> getDnaFloat dna (cursor + 99) > 0.4
                   then snd (drawLeaf species config 1.5 time rand k) else k))
         else []),
      (if depth < maxDepth then
           snd (drawChildren len depth maxDepth cursor dna species config time rand
                  (nat \<lfloor>getDnaFloat dna (cursor + 2) * 2\<rfloor> + 2)
                  (if species = OAK then 1.0 else if species = PINE then 0.6 else 0.8) 0
                  (if (int depth > int maxDepth - 3 \<or> depth = maxDepth)
                        \<and> getDnaFloat dna (cursor + 99) > 0.4
                   then snd (drawLeaf species config 1.5 time rand k) else k))
       else (if (int depth > int maxDepth - 3 \<or> depth = maxDepth)
                        \<and> getDnaFloat dna (cursor + 99) > 0.4
                   then snd (drawLeaf species config 1.5 time rand k) else k)))"
  by (subst drawBranch.simps) (simp add: Let_def split: prod.splits)

lemma drawBranch_depth: 
  "s_depth (fst (drawBranch len depth maxDepth cursor dna species config time rand k)) = depth"
  by (simp only: drawBranch_eq fst_conv Branch2D.sel)

lemma drawBranch_children:
  "ac \<in> set (s_children (fst (drawBranch len depth maxDepth cursor dna species config time
      rand k))) \<Longrightarrow>
   depth < maxDepth \<and>
   (\<exists>branchCount spread k1. ac \<in> set (fst (drawChildren len depth maxDepth cursor dna species
      config time rand branchCount spread 0 k1)))"
  by (simp only: drawBranch_eq [of len depth] fst_conv Branch2D.sel split: if_splits) auto

lemma drawChildren_members:
  "ac \<in> set (fst (drawChildren len depth maxDepth cursor dna species config time rand
      branchCount spread i k)) \<Longrightarrow>
   \<exists>len' cursor' k'. snd ac = fst (drawBranch len' (depth + 1) maxDepth cursor' dna species
      config time rand k')"
proof (induction "branchCount - i" arbitrary: i k)
  case 0
  then have "\<not> i < branchCount" by simp
  with "0.prems" show ?case
    by (simp only: drawChildren_eq [of len depth maxDepth cursor dna species config time rand
          branchCount spread i k] if_False fst_conv) simp
next
  case (Suc n)
  then have lt: "i < branchCount" and n: "n = branchCount - (i + 1)" by simp_all
  let ?r = "drawBranch (len * (0.7 + getDnaFloat dna (cursor + 20 + i) * 0.1)) (depth + 1)
                 maxDepth (cursor + 100 + i * 50) dna species config time rand k"
  from Suc.prems lt
  have "snd ac = fst ?r \<or>
        ac \<in> set (fst (drawChildren len depth maxDepth cursor dna species config time rand
                  branchCount spread (i + 1) (snd ?r)))"
    by (simp only: drawChildren_eq [of len depth maxDepth cursor dna species config time rand
          branchCount spread i k] if_True fst_conv set_simps insert_iff) auto
  then show ?case using Suc.hyps(1) [OF n] by blast
qed

lemma drawBranch_depth_bound:
  "depth \<le> maxDepth \<Longrightarrow>
   b \<in> set (allBranches (fst (drawBranch len depth maxDepth cursor dna species config time
      rand k))) \<Longrightarrow> s_depth b \<le> maxDepth"
proof (induction "maxDepth - depth" arbitrary: depth len cursor k)
  case 0
  let ?t = "fst (drawBranch len depth maxDepth cursor dna species config time rand k)"
  have nlt: "\<not> depth < maxDepth" using "0.hyps" by simp
  have "s_children ?t = []"
  proof (rule ccontr)
    assume "s_children ?t \<noteq> []"
    then obtain ac where "ac \<in> set (s_children ?t)" by (cases "s_children ?t") auto
    from drawBranch_children [OF this] nlt show False by simp
  qed
  then have "b = ?t" using "0.prems"(2) allBranches_cases [of b ?t] by simp
  then show ?case using "0.prems"(1) by (simp only: drawBranch_depth)
next
  case (Suc n)
  let ?t = "fst (drawBranch len depth maxDepth cursor dna species config time rand k)"
  from Suc.prems(2) consider "b = ?t"
    | ac where "ac \<in> set (s_children ?t)" "b \<in> set (allBranches (snd ac))"
    using allBranches_cases [of b ?t] by auto
  then show ?case
  proof cases
    case 1
    then show ?thesis using Suc.prems(1) by (simp only: drawBranch_depth)
  next
    case 2
    from drawBranch_children [OF 2(1)] obtain branchCount spread k1 where
      lt: "depth < maxDepth" and
      m: "ac \<in> set (fst (drawChildren len depth maxDepth cursor dna species
      config time rand branchCount spread 0 k1))" by auto
    from drawChildren_members [OF m] obtain len' cursor' k' where
      c: "snd ac = fst (drawBranch len' (depth + 1) maxDepth cursor' dna species
      config time rand k')" by auto
    have n: "n = maxDepth - (depth + 1)" using Suc.hyps(2) by simp
    have le: "depth + 1 \<le> maxDepth" using lt by simp
    have "b \<in> set (allBranches (fst (drawBranch len' (depth + 1) maxDepth cursor' dna species
      config time rand k')))" using 2(2) c by simp
    then show ?thesis by (rule Suc.hyps(1) [OF n le])
  qed
qed

lemma leafShape_indep:
  "leafShapeOnly (fst (drawLeaf species config scale time rand k)) =
   leafShapeOnly (fst (drawLeaf species config scale time rand' k'))"
  by (simp add: drawLeaf_def Let_def)

lemma skeleton_drawBranch_eq:
  "skeleton (fst (drawBranch len depth maxDepth cursor dna species config time rand k)) =
     Branch2D len depth cursor (max 1 ((real maxDepth - real depth) * 3)) (colorBark config)
        ((getDnaFloat dna (cursor + 1) - 0.5) * 20 * (len / 100))
        (sin (time + real depth * 0.5) * (real depth * 1.5))
        (if (int depth > int maxDepth - 3 \<or> depth = maxDepth)
              \<and> getDnaFloat dna (cursor + 99) > 0.4
         then Some (leafShapeOnly (fst (drawLeaf species config 1.5 time rand k))) else None)
        (if depth < maxDepth then
           map (\<lambda>ac. (fst ac, skeleton (snd ac)))
             (fst (drawChildren len depth maxDepth cursor dna species config time rand
                  (nat \<lfloor>getDnaFloat dna (cursor + 2) * 2\<rfloor> + 2)
                  (if species = OAK then 1.0 else if species = PINE then 0.6 else 0.8) 0
                  (if (int depth > int maxDepth - 3 \<or> depth = maxDepth)
                        \<and> getDnaFloat dna (cursor + 99) > 0.4
                   then snd (drawLeaf species config 1.5 time rand k) else k)))
         else [])"
  by (simp only: drawBranch_eq fst_conv skeleton.simps) simp

lemma skeleton_drawChildren:
  assumes IH: "\<And>len' cursor' k k'.
      skeleton (fst (drawBranch len' (depth + 1) maxDepth cursor' dna species config time
        rand k)) =
      skeleton (fst (drawBranch len' (depth + 1) maxDepth cursor' dna species config time
        rand' k'))"
  shows "map (\<lambda>ac. (fst ac, skeleton (snd ac)))
           (fst (drawChildren len depth maxDepth cursor dna species config time rand
              branchCount spread i k)) =
         map (\<lambda>ac. (fst ac, skeleton (snd ac)))
           (fst (drawChildren len depth maxDepth cursor dna species config time rand'
              branchCount spread i k'))"
proof (induction "branchCount - i" arbitrary: i k k')
  case 0
  then have "\<not> i < branchCount" by simp
  then show ?case
    by (simp only:
        drawChildren_eq [of len depth maxDepth cursor dna species config time rand
          branchCount spread i k]
        drawChildren_eq [of len depth maxDepth cursor dna species config time rand'
          branchCount spread i k'] if_False fst_conv)
next
  case (Suc n)
  then have lt: "i < branchCount" and n: "n = branchCount - (i + 1)" by simp_all
  show ?case
    apply (simp only:
        drawChildren_eq [of len depth maxDepth cursor dna species config time rand
          branchCount spread i k]
        drawChildren_eq [of len depth maxDepth cursor dna species config time rand'
          branchCount spread i k'] lt if_True fst_conv snd_conv list.map)
    apply (simp only: Suc.hyps(1) [OF n, of _ "snd (drawBranch (len * (0.7 + getDnaFloat dna (cursor + 20 + i) * 0.1)) (depth + 1) maxDepth (cursor + 100 + i * 50) dna species config time rand' k')"]
       IH [of _ _ k k'])
    done
qed

lemma skeleton_indep:
  "skeleton (fst (drawBranch len depth maxDepth cursor dna species config time rand k)) =
   skeleton (fst (drawBranch len depth maxDepth cursor dna species config time rand' k'))"
proof (induction "maxDepth - depth" arbitrary: depth len cursor k k')
  case 0
  then have "\<not> depth < maxDepth" by simp
  then show ?case
    by (simp only: skeleton_drawBranch_eq if_False leafShape_indep [of _ _ _ _ rand k rand' k'])
next
  case (Suc n)
  then have n: "n = maxDepth - (depth + 1)" by simp
  note IH = Suc.hyps(1) [OF n]
  show ?case
    by (simp only: skeleton_drawBranch_eq leafShape_indep [of _ _ _ _ rand k rand' k']
        skeleton_drawChildren [OF IH, of _ _ _ _ _ "(if (int depth > int maxDepth - 3 \<or> depth = maxDepth)
                        \<and> getDnaFloat dna (cursor + 99) > 0.4
                   then snd (drawLeaf species config 1.5 time rand k) else k)"
               "(if (int depth > int maxDepth - 3 \<or> depth = maxDepth)
                        \<and> getDnaFloat dna (cursor + 99) > 0.4
                   then snd (drawLeaf species config 1.5 time rand' k') else k')"])
qed


subsection \<open>Determinism\<close>

lemma TreeRender3D_inputs:
  "tree_species t = tree_species t' \<Longrightarrow> tree_stage t = tree_stage t' \<Longrightarrow>
   tree_dna t = tree_dna t' \<Longrightarrow> tree_pruningCount t = tree_pruningCount t' \<Longrightarrow>
   tree_wiringState t = tree_wiringState t' \<Longrightarrow> TreeRender3D t = TreeRender3D t'"
  by (simp add: TreeRender3D_def Let_def split: option.splits)

lemma TreeRender2D_fst:
  "fst (TreeRender2D tree time rand k) =
     (if tree_stage tree = SEED
      then SeedFrame (drawSeed 1024 1024 (colorBark (SPECIES_CONFIG (tree_species tree))) time)
      else TreeFrame (fst (drawBranch 140 1 (complexity2D (tree_stage tree)) 0
             (case tree_dna tree of Some d \<Rightarrow> d | None \<Rightarrow> [speciesName (tree_species tree)])
             (tree_species tree) (SPECIES_CONFIG (tree_species tree)) time rand k)))"
  by (simp add: TreeRender2D_def Let_def split: prod.splits)

lemma TreeRender2D_skeleton:
  "tree_species t = tree_species t' \<Longrightarrow> tree_stage t = tree_stage t' \<Longrightarrow>
   tree_dna t = tree_dna t' \<Longrightarrow>
   skeletonFrame (fst (TreeRender2D t time rand k)) =
   skeletonFrame (fst (TreeRender2D t' time rand' k'))"
  using skeleton_indep [of _ _ _ _ _ _ _ time rand k rand' k']
  by (simp add: TreeRender2D_fst split: option.splits)

lemma cherry_float: "getDnaFloat [''CHE-AB12'', ''EVO-643232-7K''] 199 = 0.620"
  by (simp add: hash_eval numeral_2_eq_2 [symmetric])

lemma first_leaf:
  "map_option leaf_fillStyle
     (s_leaf (snd (hd (s_children
        (fst (drawBranch 140 1 4 0 [''CHE-AB12'', ''EVO-643232-7K''] CHERRY (SPECIES_CONFIG CHERRY) 0 rand 0)))))) =
   Some (if rand 1 > 0.5 then ''#fbcfe8'' else ''#fed7aa'')"
proof -
  have c: "s_children (fst (drawBranch 140 1 4 0 [''CHE-AB12'', ''EVO-643232-7K''] CHERRY (SPECIES_CONFIG CHERRY) 0
            rand 0)) =
        fst (drawChildren 140 1 4 0 [''CHE-AB12'', ''EVO-643232-7K''] CHERRY (SPECIES_CONFIG CHERRY) 0 rand
              (nat \<lfloor>getDnaFloat [''CHE-AB12'', ''EVO-643232-7K''] (0 + 2) * 2\<rfloor> + 2) 0.8 0 0)"
    by (simp only: drawBranch_eq [of 140 1 4 0] fst_conv Branch2D.sel) simp
  have l: "s_leaf (fst (drawBranch len (1 + 1) 4 (0 + 100 + 0 * 50) [''CHE-AB12'', ''EVO-643232-7K''] CHERRY
            (SPECIES_CONFIG CHERRY) 0 rand 0)) =
          Some (fst (drawLeaf CHERRY (SPECIES_CONFIG CHERRY) 1.5 0 rand 0))" for len
    by (simp only: drawBranch_eq [of len "1 + 1" 4 "0 + 100 + 0 * 50"] fst_conv Branch2D.sel)
      (simp add: cherry_float)
  have bc: "0 < nat \<lfloor>getDnaFloat [''CHE-AB12'', ''EVO-643232-7K''] (0 + 2) * 2\<rfloor> + 2" by simp
  show ?thesis
    unfolding c
    apply (simp only: drawChildren_eq [of 140 1 4 0 _ _ _ _ _ _ _ 0 0] bc if_True fst_conv
        snd_conv list.sel l option.map)
    apply (simp add: drawLeaf_def)
    done
qed

text \<open>
  Claim C1, as stated for every generator, fails in the 2D canvas path: \<^verbatim>\<open>drawLeaf\<close>
  takes the sway of each leaf and the colour of a cherry blossom from \<^verbatim>\<open>Math.random()\<close>.
  Two frames of the same cherry sapling at the same clock time, with different draws,
  paint the first leaf in different colours.
\<close>

theorem C1_leaf_random_counterexample:
  "fst (TreeRender2D (exampleTree CHERRY SAPLING [''CHE-AB12'', ''EVO-643232-7K''] 0 0) 0 (\<lambda>i. 0) 0) \<noteq>
   fst (TreeRender2D (exampleTree CHERRY SAPLING [''CHE-AB12'', ''EVO-643232-7K''] 0 0) 0 (\<lambda>i. 9 / 10) 0)"
proof
  let ?obs = "\<lambda>r. case r of
      TreeFrame b \<Rightarrow> map_option leaf_fillStyle (s_leaf (snd (hd (s_children b))))
    | SeedFrame v \<Rightarrow> None"
  let ?t = "exampleTree CHERRY SAPLING [''CHE-AB12'', ''EVO-643232-7K''] 0 0"
  have f: "?obs (fst (TreeRender2D ?t 0 rand 0)) =
           Some (if rand 1 > 0.5 then ''#fbcfe8'' else ''#fed7aa'')" for rand
    using first_leaf [of rand]
    by (simp add: TreeRender2D_fst exampleTree_def)
  assume "fst (TreeRender2D ?t 0 (\<lambda>i. 0) 0) = fst (TreeRender2D ?t 0 (\<lambda>i. 9 / 10) 0)"
  then have "?obs (fst (TreeRender2D ?t 0 (\<lambda>i. 0) 0)) =
             ?obs (fst (TreeRender2D ?t 0 (\<lambda>i. 9 / 10) 0))" by simp
  then show False unfolding f by simp
qed

text \<open>
  Claim C1, amended. The 3D generator is a function of
  \<open>(species, stage, dnaHistory, pruningCount, wiringState)\<close> alone: two records that
  agree on these render the same tree, node for node. The hash stream gives equal
  floats for equal key strings. In the 2D canvas path the branch skeleton (topology,
  lengths, angles, curves, which branches carry a leaf and the leaf's shape) is a
  function of \<open>(species, stage, dnaHistory)\<close> and the clock time alone; only the leaf
  sway and the blossom colour, drawn from \<^verbatim>\<open>Math.random()\<close>, can differ between two
  invocations.
\<close>

theorem C1_determinism:
  "(tree_species t = tree_species t' \<and> tree_stage t = tree_stage t' \<and> tree_dna t = tree_dna t'
      \<and> tree_pruningCount t = tree_pruningCount t' \<and> tree_wiringState t = tree_wiringState t'
      \<longrightarrow> TreeRender3D t = TreeRender3D t')
   \<and> (dnaKey dna depth offset = dnaKey dna' depth' offset'
      \<longrightarrow> getDnaRandom dna depth offset = getDnaRandom dna' depth' offset')
   \<and> (floatKey history cursor = floatKey history' cursor'
      \<longrightarrow> getDnaFloat history cursor = getDnaFloat history' cursor')
   \<and> (tree_species t = tree_species t' \<and> tree_stage t = tree_stage t' \<and> tree_dna t = tree_dna t'
      \<longrightarrow> skeletonFrame (fst (TreeRender2D t time rand k)) =
          skeletonFrame (fst (TreeRender2D t' time rand' k')))"
  using TreeRender3D_inputs [of t t'] TreeRender2D_skeleton [of t t' time rand k rand' k']
  by (simp add: getDnaRandom_def getDnaFloat_def)

theorem C1_determinism_witness:
  "TreeRender3D (exampleTree PINE SAPLING [''PIN-AB12'', ''EVO-643232-4F''] 0 0) =
     TreeRender3D ((exampleTree PINE SAPLING [''PIN-AB12'', ''EVO-643232-4F''] 0 0)
        \<lparr>tree_age := 7, tree_water := 10, tree_name := ''Old Pine''\<rparr>)
   \<and> getDnaRandom [''A''] 1 23 = getDnaRandom [''A''] 12 3
   \<and> getDnaFloat [''A''] 5 = getDnaFloat [''A'', ''B''] 5
   \<and> skeletonFrame (fst (TreeRender2D (exampleTree PINE SAPLING [''PIN-AB12'', ''EVO-643232-4F''] 0 0) 2
         (\<lambda>i. 0) 0)) =
       skeletonFrame (fst (TreeRender2D ((exampleTree PINE SAPLING [''PIN-AB12'', ''EVO-643232-4F''] 0 0)
         \<lparr>tree_age := 7, tree_water := 10, tree_name := ''Old Pine''\<rparr>) 2 (\<lambda>i. 9 / 10) 5))"
proof -
  have k: "dnaKey [''A''] 1 23 = dnaKey [''A''] 12 3"
    "floatKey [''A''] 5 = floatKey [''A'', ''B''] 5"
    by (simp_all add: dnaKey_def floatKey_def segment_def segment2D_def segmentIndex_def
        segmentIdx_def arrayGet_def orElse_def truthy_def str_def numberToString.simps
        digitChar_def)
  show ?thesis
    using C1_determinism [where t = "exampleTree PINE SAPLING [''PIN-AB12'', ''EVO-643232-4F''] 0 0"
        and t' = "(exampleTree PINE SAPLING [''PIN-AB12'', ''EVO-643232-4F''] 0 0)
          \<lparr>tree_age := 7, tree_water := 10, tree_name := ''Old Pine''\<rparr>"
        and dna = "[''A'']" and depth = 1 and offset = 23
        and dna' = "[''A'']" and depth' = 12 and offset' = 3
        and history = "[''A'']" and history' = "[''A'', ''B'']" and cursor = 5 and cursor' = 5
        and time = 2 and rand = "\<lambda>i. 0" and k = 0 and rand' = "\<lambda>i. 9 / 10" and k' = 5] k
    by (simp add: exampleTree_def)
qed


subsection \<open>Depth bound\<close>

lemma TreeRender3D_depth_bound:
  "n \<in> set (branchNodes3D (TreeRender3D tree)) \<Longrightarrow> n_depth n \<le> complexity3D (tree_stage tree)"
proof (cases "tree_stage tree = SEED")
  case True
  then show "n \<in> set (branchNodes3D (TreeRender3D tree)) \<Longrightarrow> ?thesis"
    by (simp add: TreeRender3D_def Let_def)
next
  case False
  let ?b = "Branch (0, 0, 0) (0, 0, 0) 1.5 0.3 0 (complexity3D (tree_stage tree))
              (tree_species tree) (tree_pruningCount tree) (tree_wiringState tree)
              (case tree_dna tree of Some d \<Rightarrow> d
               | None \<Rightarrow> [speciesName (tree_species tree) @ ''INIT''])"
  assume n: "n \<in> set (branchNodes3D (TreeRender3D tree))"
  have t: "TreeRender3D tree = TreeScene ?b" using False by (simp add: TreeRender3D_def Let_def)
  obtain r where r: "?b = Some r" using Branch_None_iff by (cases ?b) auto
  have "n \<in> set (allNodes r)" using n unfolding t r by simp
  then show ?thesis using Branch_depth_bound [OF _ r] by simp
qed

lemma branchNodes3D_nonempty:
  "tree_stage tree \<noteq> SEED \<Longrightarrow> branchNodes3D (TreeRender3D tree) \<noteq> []"
proof -
  assume ns: "tree_stage tree \<noteq> SEED"
  let ?b = "Branch (0, 0, 0) (0, 0, 0) 1.5 0.3 0 (complexity3D (tree_stage tree))
              (tree_species tree) (tree_pruningCount tree) (tree_wiringState tree)
              (case tree_dna tree of Some d \<Rightarrow> d
               | None \<Rightarrow> [speciesName (tree_species tree) @ ''INIT''])"
  have t: "TreeRender3D tree = TreeScene ?b" using ns by (simp add: TreeRender3D_def Let_def)
  obtain r where r: "?b = Some r" using Branch_None_iff by (cases ?b) auto
  show ?thesis unfolding t r by (cases r) simp
qed

lemma TreeRender2D_depth_bound:
  "b \<in> set (branchNodes2D (fst (TreeRender2D tree time rand k)))
   \<Longrightarrow> s_depth b \<le> complexity2D (tree_stage tree)"
proof (cases "tree_stage tree = SEED")
  case True
  then show "b \<in> set (branchNodes2D (fst (TreeRender2D tree time rand k))) \<Longrightarrow> ?thesis"
    by (simp add: TreeRender2D_def Let_def)
next
  case False
  then have one: "1 \<le> complexity2D (tree_stage tree)" by (cases "tree_stage tree") simp_all
  assume b: "b \<in> set (branchNodes2D (fst (TreeRender2D tree time rand k)))"
  then have "b \<in> set (allBranches (fst (drawBranch 140 1 (complexity2D (tree_stage tree)) 0
      (case tree_dna tree of Some d \<Rightarrow> d | None \<Rightarrow> [speciesName (tree_species tree)])
      (tree_species tree) (SPECIES_CONFIG (tree_species tree)) time rand k)))"
    using False by (simp add: TreeRender2D_def Let_def split: prod.splits)
  then show ?thesis by (rule drawBranch_depth_bound [OF one])
qed

text \<open>
  Claim C2. No branch that either renderer generates has a depth above the complexity
  of the stage, which is 0 for SEED and 3, 5, 7 (3D) or 4, 7, 9 (2D) for SAPLING, ADULT,
  MASTER. At stage SEED, whatever the history, there is no branch at all: the 3D
  renderer returns \<^verbatim>\<open>SeedObject\<close> alone and the 2D renderer \<^verbatim>\<open>drawSeed\<close> alone.
\<close>

theorem C2_depth_bound:
  "(\<forall>n \<in> set (branchNodes3D (TreeRender3D tree)). n_depth n \<le> complexity3D (tree_stage tree))
   \<and> (\<forall>b \<in> set (branchNodes2D (fst (TreeRender2D tree time rand k))).
        s_depth b \<le> complexity2D (tree_stage tree))
   \<and> map complexity3D [SEED, SAPLING, ADULT, MASTER] = [0, 3, 5, 7]
   \<and> map complexity2D [SEED, SAPLING, ADULT, MASTER] = [0, 4, 7, 9]
   \<and> (tree_stage tree = SEED \<longrightarrow>
        branchNodes3D (TreeRender3D tree) = []
        \<and> TreeRender3D tree =
            SeedScene (SeedObject (case tree_dna tree of Some d \<Rightarrow> d
                         | None \<Rightarrow> [speciesName (tree_species tree) @ ''INIT''])
                       (tree_species tree))
        \<and> branchNodes2D (fst (TreeRender2D tree time rand k)) = []
        \<and> fst (TreeRender2D tree time rand k) =
            SeedFrame (drawSeed 1024 1024 (colorBark (SPECIES_CONFIG (tree_species tree))) time))"
  using TreeRender3D_depth_bound [of _ tree] TreeRender2D_depth_bound [of _ tree time rand k]
  by (simp add: TreeRender3D_def TreeRender2D_def Let_def)

theorem C2_depth_bound_witness:
  "branchNodes3D (TreeRender3D (exampleTree PINE SEED [''PIN-AB12''] 0 0)) = []
   \<and> branchNodes2D (fst (TreeRender2D (exampleTree PINE SEED [''PIN-AB12''] 0 0) 0 (\<lambda>i. 0) 0)) = []
   \<and> branchNodes3D (TreeRender3D (exampleTree PINE SAPLING [''PIN-AB12'', ''EVO-643232-4F''] 0 0)) \<noteq> []
   \<and> list_all (\<lambda>n. n_depth n \<le> 3)
        (branchNodes3D (TreeRender3D (exampleTree PINE SAPLING [''PIN-AB12'', ''EVO-643232-4F''] 0 0)))
   \<and> branchNodes2D (fst (TreeRender2D (exampleTree PINE SAPLING [''PIN-AB12'', ''EVO-643232-4F''] 0 0) 0 (\<lambda>i. 0) 0))
        \<noteq> []
   \<and> list_all (\<lambda>b. s_depth b \<le> 4)
        (branchNodes2D (fst (TreeRender2D (exampleTree PINE SAPLING [''PIN-AB12'', ''EVO-643232-4F''] 0 0) 0 (\<lambda>i. 0) 0)))"
proof -
  let ?seed = "exampleTree PINE SEED [''PIN-AB12''] 0 0"
  let ?sap = "exampleTree PINE SAPLING [''PIN-AB12'', ''EVO-643232-4F''] 0 0"
  have s: "tree_stage ?seed = SEED" "tree_stage ?sap = SAPLING" by (simp_all add: exampleTree_def)
  have a: "branchNodes3D (TreeRender3D ?sap) \<noteq> []"
    using branchNodes3D_nonempty [of ?sap] s by simp
  have b: "branchNodes2D (fst (TreeRender2D ?sap 0 (\<lambda>i. 0) 0)) \<noteq> []"
    by (simp add: TreeRender2D_def exampleTree_def drawBranch_eq Let_def)
  show ?thesis
    using C2_depth_bound [of ?seed 0 "\<lambda>i. 0" 0] C2_depth_bound [of ?sap 0 "\<lambda>i. 0" 0] s a b
    by (simp add: list_all_iff)
qed


subsection \<open>Segment selection\<close>

lemma segment_clamp:
  "dna \<noteq> [] \<Longrightarrow> dna ! min (depth div 2) (length dna - 1) \<noteq> [] \<Longrightarrow>
   segment dna depth = dna ! min (depth div 2) (length dna - 1)"
proof -
  assume n: "dna \<noteq> []" and t: "dna ! min (depth div 2) (length dna - 1) \<noteq> []"
  have i: "segmentIndex dna depth = int (min (depth div 2) (length dna - 1))"
    using n by (cases dna) (auto simp: segmentIndex_def min_def)
  have "min (depth div 2) (length dna - 1) < length dna" using n by (cases dna) auto
  then show ?thesis using t
    by (simp add: segment_def i arrayGet_def orElse_def truthy_def)
qed

lemma segment2D_mod:
  "dna \<noteq> [] \<Longrightarrow> dna ! ((cursor div 10) mod length dna) \<noteq> [] \<Longrightarrow>
   segment2D dna cursor = dna ! ((cursor div 10) mod length dna)"
  by (simp add: segment2D_def segmentIdx_def arrayGet_def truthy_def)

lemma segment_shallow: "depth < 2 \<Longrightarrow> segment [X] depth = segment [X, Y] depth"
  by (simp add: segment_def segmentIndex_def arrayGet_def orElse_def truthy_def)

lemma segment_deep:
  "2 \<le> depth \<Longrightarrow> X \<noteq> [] \<Longrightarrow> Y \<noteq> [] \<Longrightarrow> segment [X] depth = X \<and> segment [X, Y] depth = Y"
proof -
  assume d: "2 \<le> depth" and x: "X \<noteq> []" and y: "Y \<noteq> []"
  have "1 \<le> depth div 2" using d by simp
  then have "min (int (depth div 2)) 1 = 1" by simp
  then show ?thesis using x y
    by (simp add: segment_def segmentIndex_def arrayGet_def orElse_def truthy_def)
qed

lemma getDnaRandom_shallow:
  "depth < 2 \<Longrightarrow> getDnaRandom [X] depth offset = getDnaRandom [X, Y] depth offset"
  using segment_shallow [of depth X Y] by (simp add: getDnaRandom_def dnaKey_def)

lemma TreeRender3D_shallow:
  "sceneToDepth 1 (TreeRender3D (tree\<lparr>tree_dna := Some [X]\<rparr>)) =
   sceneToDepth 1 (TreeRender3D (tree\<lparr>tree_dna := Some [X, Y]\<rparr>))"
  using keepToDepth1_cong [of "[X]" "[X, Y]"]
  by (simp add: TreeRender3D_def Let_def SeedObject_def getDnaRandom_shallow)

text \<open>
  Claim C3. For the history \<^verbatim>\<open>["X","Y"]\<close> at depth 4 the claimed rule selects index
  \<open>floor (4 / 2) mod 2 = 0\<close>, the segment \<^verbatim>\<open>X\<close>; so does the comment above
  \<^verbatim>\<open>getDnaRandom\<close>, which promises the first segment when the depth is beyond the
  history. The code computes \<^verbatim>\<open>Math.min(Math.floor(depth / 2), dna.length - 1)\<close>, which
  is index 1 there: it reads the last segment \<^verbatim>\<open>Y\<close> and hashes the key \<^verbatim>\<open>Y4100\<close> at
  offset 100. The 2D accessor does wrap: at the cursor 40 it reads index
  \<open>floor (40 / 10) mod 2 = 0\<close>, the segment \<^verbatim>\<open>X\<close>.
\<close>

theorem C3_clamp_at_depth_4:
  "segmentIndex [''X'', ''Y''] 4 = 1
   \<and> segment [''X'', ''Y''] 4 = ''Y''
   \<and> [''X'', ''Y''] ! ((4 div 2) mod length [''X'', ''Y'']) = ''X''
   \<and> dnaKey [''X'', ''Y''] 4 100 = ''Y4100''
   \<and> segment2D [''X'', ''Y''] 40 = ''X''"
proof -
  have l: "length [''X'', ''Y''] = 2" by simp
  have "[''X'', ''Y''] ! ((4 div 2) mod length [''X'', ''Y'']) = ''X''"
    unfolding l by simp
  moreover have "segmentIndex [''X'', ''Y''] 4 = 1" by (simp add: segmentIndex_def)
  moreover have "segment [''X'', ''Y''] 4 = ''Y''"
    by (simp add: segment_def segmentIndex_def arrayGet_def orElse_def truthy_def)
  moreover have "dnaKey [''X'', ''Y''] 4 100 = ''Y4100''"
    by (simp add: dnaKey_def segment_def segmentIndex_def arrayGet_def orElse_def truthy_def
        str_def numberToString.simps digitChar_def)
  moreover have "segment2D [''X'', ''Y''] 40 = ''X''"
    by (simp add: segment2D_def segmentIdx_def arrayGet_def truthy_def
        numeral_2_eq_2 [symmetric])
  ultimately show ?thesis by simp
qed


subsection \<open>Pruning\<close>

lemma prune_reroll:
  "getDnaRandom [''PIN-AB12'', ''EVO-643232-4F''] 2 (300 + 1) = 0.488
   \<and> getDnaRandom [''PIN-AB12'', ''EVO-643232-4F''] 2 (300 + 2) = 0.898"
  by (simp add: hash_eval)

lemma TreeRender3D_pruning:
  "sceneToDepth 1 (TreeRender3D (tree\<lparr>tree_pruningCount := p\<rparr>)) =
   sceneToDepth 1 (TreeRender3D (tree\<lparr>tree_pruningCount := p'\<rparr>))"
  using keepToDepth1_cong [of _ _ _ _ _ _ _ _ p _ p']
  by (cases "tree_dna tree") (simp_all add: TreeRender3D_def Let_def)

text \<open>
  Claim C4. A branch renders nothing (and so has no subtree) exactly when its depth
  exceeds 1 and the draw at offset \<open>300 + pruningCount\<close> exceeds 0.85. Raising
  \<open>pruningCount\<close> from \<open>N\<close> to \<open>N + 1\<close> leaves the trunk and its direct children,
  with their positions, rotations, lengths and radii, unchanged; deeper it can change
  which branches survive, as it does at depth 2 for the history
  \<^verbatim>\<open>["PIN-AB12", "EVO-643232-4F"]\<close> between the counts 1 and 2.
\<close>

theorem C4_pruning_locality:
  "(Branch position rotation len radius depth maxDepth species pruneState wireState dna = None
      \<longleftrightarrow> depth > 1 \<and> getDnaRandom dna depth (300 + pruneState) > 0.85)
   \<and> sceneToDepth 1 (TreeRender3D (tree\<lparr>tree_pruningCount := N + 1\<rparr>)) =
       sceneToDepth 1 (TreeRender3D (tree\<lparr>tree_pruningCount := N\<rparr>))
   \<and> Branch position rotation len radius 2 3 PINE 1 0 [''PIN-AB12'', ''EVO-643232-4F'']
        \<noteq> None
   \<and> Branch position rotation len radius 2 3 PINE (1 + 1) 0 [''PIN-AB12'', ''EVO-643232-4F'']
        = None"
  using TreeRender3D_pruning [where tree = tree and p = "N + 1" and p' = N] prune_reroll
  by (simp add: Branch_None_iff)


subsection \<open>Decay\<close>

lemma TreeRender3D_shrinks:
  assumes "m \<in> set (branchNodes3D (TreeRender3D tree))" and "c \<in> set (n_children m)"
  shows "n_length c < n_length m \<and> n_radius c < n_radius m"
proof (cases "tree_stage tree = SEED")
  case True
  then show ?thesis using assms(1) by (simp add: TreeRender3D_def Let_def)
next
  case False
  let ?b = "Branch (0, 0, 0) (0, 0, 0) 1.5 0.3 0 (complexity3D (tree_stage tree))
              (tree_species tree) (tree_pruningCount tree) (tree_wiringState tree)
              (case tree_dna tree of Some d \<Rightarrow> d
               | None \<Rightarrow> [speciesName (tree_species tree) @ ''INIT''])"
  have t: "TreeRender3D tree = TreeScene ?b" using False by (simp add: TreeRender3D_def Let_def)
  obtain r where r: "?b = Some r" using Branch_None_iff by (cases ?b) auto
  have m: "m \<in> set (allNodes r)" using assms(1) unfolding t r by simp
  have p: "(0::real) < 1.5" "(0::real) < 0.3" by simp_all
  show ?thesis by (rule Branch_shrinks [OF p r m assms(2)])
qed

lemma ulpFrom_first: "0 < k \<Longrightarrow> x < u * 2 ^ 53 \<Longrightarrow> ulpFrom k u x = u"
  by (cases k) simp_all

lemma double07_bounds: "1 / 2 < double07" "double07 < 1"
  by (simp_all add: double07_def)

lemma roundEven_upper_half: "1 / 2 < x \<Longrightarrow> x < 1 \<Longrightarrow> roundEven x = 1"
proof -
  assume a: "1 / 2 < x" "x < 1"
  then have "\<lfloor>x\<rfloor> = 0" by (simp add: floor_eq_iff)
  then show ?thesis using a by (simp add: roundEven_def Let_def)
qed

lemma minDouble_pos: "0 < minDouble"
  by (simp add: minDouble_def)

lemma nextRadiusDouble_min: "nextRadiusDouble minDouble = minDouble"
proof -
  have p: "0 < minDouble" by (rule minDouble_pos)
  have a: "\<bar>minDouble * double07\<bar> = minDouble * double07"
    using p double07_bounds by simp
  have "minDouble * double07 < minDouble * 1"
    using p double07_bounds(2) by (simp only: mult_less_cancel_left_pos)
  also have "\<dots> \<le> minDouble * 2 ^ 53" using p by simp
  finally have "ulpFrom 2045 minDouble (minDouble * double07) = minDouble"
    by (intro ulpFrom_first) simp_all
  then have u: "ulp (minDouble * double07) = minDouble" by (simp only: ulp_def a)
  have "minDouble * double07 / minDouble = double07" using p by simp
  then show ?thesis
    using double07_bounds
    by (simp only: nextRadiusDouble_def mulDouble_def roundToDouble_def u roundEven_upper_half)
qed

text \<open>
  Claim C5, as stated, fails for some positive starting radius. The claim lets the
  starting length and radius be any positive numbers. In the doubles of the program the
  smallest positive radius, \<open>2\<^sup>-\<^sup>1\<^sup>0\<^sup>7\<^sup>4\<close> (printed \<^verbatim>\<open>5e-324\<close>), times \<^verbatim>\<open>0.7\<close> rounds back to
  itself: the child's radius equals its parent's and is not strictly smaller.
\<close>

theorem C5_smallest_radius_counterexample:
  "0 < minDouble \<and> nextRadiusDouble minDouble = minDouble \<and> \<not> nextRadiusDouble minDouble < minDouble"
  using minDouble_pos nextRadiusDouble_min by simp

text \<open>
  Claim C5, amended. Every child of a rendered branch has the length
  \<open>length * (0.75 + 0.1 * floatAt(dna, depth, 100))\<close> and the radius \<open>radius * 0.7\<close>.
  The length factor lies in \<open>[0.75, 0.85)\<close>, and in every tree that \<^verbatim>\<open>TreeRender\<close>
  generates, which starts from the length 1.5 and the radius 0.3, every child, at every
  depth of the tree, is strictly shorter and strictly thinner than its parent. Numbers
  are exact reals here; nothing is claimed of other starting values.
\<close>

theorem C5_decay_generated:
  "(Branch position rotation len radius depth maxDepth species pruneState wireState dna = Some n
      \<longrightarrow> (\<forall>c \<in> set (n_children n).
            n_length c = len * (0.75 + 0.1 * getDnaRandom dna depth 100)
            \<and> n_radius c = radius * 0.7))
   \<and> 0.75 \<le> 0.75 + 0.1 * getDnaRandom dna depth 100
   \<and> 0.75 + 0.1 * getDnaRandom dna depth 100 < 0.85
   \<and> (\<forall>m \<in> set (branchNodes3D (TreeRender3D tree)). \<forall>c \<in> set (n_children m).
         n_length c < n_length m \<and> n_radius c < n_radius m)"
proof -
  have "\<And>c. Branch position rotation len radius depth maxDepth species pruneState wireState dna
             = Some n \<Longrightarrow> c \<in> set (n_children n) \<Longrightarrow>
      n_length c = len * (0.75 + 0.1 * getDnaRandom dna depth 100) \<and> n_radius c = radius * 0.7"
  proof -
    fix c
    assume b: "Branch position rotation len radius depth maxDepth species pruneState wireState dna
                 = Some n"
      and "c \<in> set (n_children n)"
    from Branch_children [OF b this(2)] obtain rotation' where
      "Branch (0, len, 0) rotation' (len * (0.75 + getDnaRandom dna depth 100 * 0.1))
         (radius * 0.7) (depth + 1) maxDepth species pruneState wireState dna = Some c"
      by auto
    from Branch_root_fields [OF this]
    show "n_length c = len * (0.75 + 0.1 * getDnaRandom dna depth 100)
          \<and> n_radius c = radius * 0.7"
      by (simp add: mult.commute)
  qed
  moreover have "0.75 \<le> 0.75 + 0.1 * getDnaRandom dna depth 100"
    "0.75 + 0.1 * getDnaRandom dna depth 100 < 0.85"
    using getDnaRandom_range [of dna depth 100] by simp_all
  moreover have "\<And>m c. m \<in> set (branchNodes3D (TreeRender3D tree)) \<Longrightarrow>
      c \<in> set (n_children m) \<Longrightarrow> n_length c < n_length m \<and> n_radius c < n_radius m"
    by (rule TreeRender3D_shrinks)
  ultimately show ?thesis by blast
qed

theorem C5_decay_generated_witness:
  "\<exists>n. Branch (0, 0, 0) (0, 0, 0) 1.5 0.3 0 3 PINE 0 0 [''PIN-AB12'', ''EVO-643232-4F''] = Some n
       \<and> TreeRender3D (exampleTree PINE SAPLING [''PIN-AB12'', ''EVO-643232-4F''] 0 0)
           = TreeScene (Some n)
       \<and> length (n_children n) = 2
       \<and> list_all (\<lambda>c. n_length c = 1.5 * (0.75 + 0.1 * getDnaRandom [''PIN-AB12'', ''EVO-643232-4F''] 0 100)
                       \<and> n_radius c = 0.3 * 0.7
                       \<and> n_length c < n_length n \<and> n_radius c < n_radius n) (n_children n)"
proof -
  let ?t = "exampleTree PINE SAPLING [''PIN-AB12'', ''EVO-643232-4F''] 0 0"
  obtain n where n: "Branch (0, 0, 0) (0, 0, 0) 1.5 0.3 0 3 PINE 0 0 [''PIN-AB12'', ''EVO-643232-4F''] = Some n"
    and l: "length (n_children n) = 2"
    using Branch_root_children [of 3 "(0, 0, 0)" "(0, 0, 0)" "1.5" "0.3" PINE 0 0 "[''PIN-AB12'', ''EVO-643232-4F'']"]
    by auto
  have t: "TreeRender3D ?t = TreeScene (Some n)"
    using n by (simp add: TreeRender3D_def exampleTree_def)
  have r: "n \<in> set (branchNodes3D (TreeRender3D ?t))" unfolding t by (cases n) simp
  have "list_all (\<lambda>c. n_length c = 1.5 * (0.75 + 0.1 * getDnaRandom [''PIN-AB12'', ''EVO-643232-4F''] 0 100)
                       \<and> n_radius c = 0.3 * 0.7
                       \<and> n_length c < n_length n \<and> n_radius c < n_radius n) (n_children n)"
    using C5_decay_generated [where tree = ?t and n = n and len = "1.5" and radius = "0.3"
        and dna = "[''PIN-AB12'', ''EVO-643232-4F'']" and depth = 0 and maxDepth = 3
        and species = PINE and pruneState = 0 and wireState = 0
        and position = "(0, 0, 0)" and rotation = "(0, 0, 0)"] n r
    by (simp add: list_all_iff)
  with n t l show ?thesis by blast
qed


subsection \<open>Siblings\<close>

lemma sibling_collision:
  "getDnaRandom [''PIN-2451'', ''EVO-643232-4F''] 1 0 = 0.776 \<and> getDnaRandom [''PIN-2451'', ''EVO-643232-4F''] 1 50 = 0.776"
  by (simp add: hash_eval)

text \<open>
  Claim C6, as stated, fails in the 3D path: the draws a branch makes for its length
  decay (offset 100) and its angle variance (offset 200) are keyed by the segment and
  the depth alone, not by the branch index. The two children of the trunk of a pine
  sapling read the same values at both offsets, have the same length and carry the same
  subtrees.
\<close>

theorem C6_sibling_counterexample:
  "(case TreeRender3D (exampleTree PINE SAPLING [''PIN-AB12'', ''EVO-643232-4F''] 0 0) of
      TreeScene (Some trunk) \<Rightarrow>
        (case n_children trunk of
           [c0, c1] \<Rightarrow>
             n_depth c0 = n_depth c1
             \<and> getDnaRandom [''PIN-AB12'', ''EVO-643232-4F''] (n_depth c0) 100 =
                 getDnaRandom [''PIN-AB12'', ''EVO-643232-4F''] (n_depth c1) 100
             \<and> getDnaRandom [''PIN-AB12'', ''EVO-643232-4F''] (n_depth c0) 200 =
                 getDnaRandom [''PIN-AB12'', ''EVO-643232-4F''] (n_depth c1) 200
             \<and> n_length c0 = n_length c1
             \<and> n_children c0 = n_children c1
         | _ \<Rightarrow> False)
    | _ \<Rightarrow> False)"
proof -
  let ?b = "Branch (0, 0, 0) (0, 0, 0) 1.5 0.3 0 3 PINE 0 0 [''PIN-AB12'', ''EVO-643232-4F'']"
  have t: "TreeRender3D (exampleTree PINE SAPLING [''PIN-AB12'', ''EVO-643232-4F''] 0 0) = TreeScene ?b"
    by (simp add: TreeRender3D_def exampleTree_def)
  obtain trunk where trunk: "?b = Some trunk" and two: "length (n_children trunk) = 2"
    using Branch_root_children [of 3 "(0, 0, 0)" "(0, 0, 0)" "1.5" "0.3" PINE 0 0
        "[''PIN-AB12'', ''EVO-643232-4F'']"] by auto
  from Branch_siblings [OF trunk] two obtain c0 c1 where
    ch: "n_children trunk = [c0, c1]" and same: "n_length c0 = n_length c1"
      "n_children c0 = n_children c1" by auto
  have "n_depth c0 = 1" "n_depth c1 = 1"
    using Branch_children [OF trunk, of c0] Branch_children [OF trunk, of c1] ch
      Branch_root_fields by fastforce+
  then show ?thesis unfolding t trunk using ch same by simp
qed

text \<open>
  Claim C6, amended. In the 3D path the two children of a branch have the same length
  and radius and the same DNA angle variance: their z rotations differ by the fixed
  split \<open>0.6 - (-0.6)\<close>, and what they carry below them is equal. Only their x rotation
  is drawn per branch index, from the keys with offsets \<open>0\<close> and \<open>50\<close>, which are
  distinct strings. In the 2D path the variance key \<open>cursor + 10 + i\<close>, the decay key
  \<open>cursor + 20 + i\<close> and the child's cursor \<open>cursor + 100 + i * 50\<close> differ between
  any two siblings. Distinct keys do not make the drawn values distinct: for the history
  \<^verbatim>\<open>["PIN-2451", "EVO-643232-4F"]\<close> both children at depth 1 draw the same x rotation.
\<close>

theorem C6_sibling_keys:
  "(Branch position rotation len radius depth maxDepth species pruneState wireState dna = Some n
      \<longrightarrow> n_children n = [] \<or>
          (\<exists>c0 c1. n_children n = [c0, c1]
             \<and> n_length c0 = n_length c1 \<and> n_radius c0 = n_radius c1
             \<and> snd (snd (n_rotation c0)) - snd (snd (n_rotation c1)) = 1.2
             \<and> fst (n_rotation c0) = getDnaRandom dna (depth + 1) (0 * 50) * 0.6
             \<and> fst (n_rotation c1) = getDnaRandom dna (depth + 1) (1 * 50) * 0.6
             \<and> n_children c0 = n_children c1))
   \<and> dnaKey dna (depth + 1) (0 * 50) \<noteq> dnaKey dna (depth + 1) (1 * 50)
   \<and> (i \<noteq> j \<longrightarrow>
         floatKey history (cursor + 10 + i) \<noteq> floatKey history (cursor + 10 + j)
         \<and> floatKey history (cursor + 20 + i) \<noteq> floatKey history (cursor + 20 + j)
         \<and> cursor + 100 + i * 50 \<noteq> cursor + 100 + j * 50)
   \<and> dnaKey [''PIN-2451'', ''EVO-643232-4F''] 1 (0 * 50) \<noteq> dnaKey [''PIN-2451'', ''EVO-643232-4F''] 1 (1 * 50)
   \<and> getDnaRandom [''PIN-2451'', ''EVO-643232-4F''] 1 (0 * 50) = getDnaRandom [''PIN-2451'', ''EVO-643232-4F''] 1 (1 * 50)"
  using Branch_siblings [of position rotation len radius depth maxDepth species pruneState
      wireState dna n]
    floatKey_inj [of history "cursor + 10 + i" history "cursor + 10 + j"]
    floatKey_inj [of history "cursor + 20 + i" history "cursor + 20 + j"]
    sibling_collision
  by (auto simp: dnaKey_inj)

theorem C6_sibling_keys_witness:
  "(\<exists>n c0 c1.
      Branch (0, 0, 0) (0, 0, 0) 1.5 0.3 0 3 PINE 0 0 [''PIN-AB12'', ''EVO-643232-4F''] = Some n
      \<and> n_children n = [c0, c1] \<and> n_length c0 = n_length c1 \<and> n_children c0 = n_children c1)
   \<and> floatKey [''PIN-AB12'', ''EVO-643232-4F''] (0 + 10 + 0) \<noteq> floatKey [''PIN-AB12'', ''EVO-643232-4F''] (0 + 10 + 1)"
proof -
  obtain n where n: "Branch (0, 0, 0) (0, 0, 0) 1.5 0.3 0 3 PINE 0 0 [''PIN-AB12'', ''EVO-643232-4F''] = Some n"
    and two: "length (n_children n) = 2"
    using Branch_root_children [of 3 "(0, 0, 0)" "(0, 0, 0)" "1.5" "0.3" PINE 0 0
        "[''PIN-AB12'', ''EVO-643232-4F'']"] by auto
  show ?thesis
    using C6_sibling_keys [where position = "(0, 0, 0)" and rotation = "(0, 0, 0)"
        and len = "1.5" and radius = "0.3" and depth = 0 and maxDepth = 3 and species = PINE
        and pruneState = 0 and wireState = 0 and dna = "[''PIN-AB12'', ''EVO-643232-4F'']" and n = n
        and i = 0 and j = 1 and history = "[''PIN-AB12'', ''EVO-643232-4F'']" and cursor = 0] n two
    by auto
qed


subsection \<open>Wiring\<close>

lemma Branch_trunk_children:
  "0 < maxDepth \<Longrightarrow>
   \<exists>n c0 c1.
     Branch position rotation len radius 0 maxDepth species pruneState wireState dna = Some n
     \<and> n_children n = [c0, c1]
     \<and> n_depth c0 = 1 \<and> n_depth c1 = 1
     \<and> snd (snd (n_rotation c0)) =
         0.6 + (getDnaRandom dna 0 200 * 0.6 - 0.3) + real wireState * 0.2
     \<and> snd (snd (n_rotation c1)) =
         - 0.6 + (getDnaRandom dna 0 200 * 0.6 - 0.3) + real wireState * 0.2"
  by (simp add: Branch_unfold [of _ _ _ _ 0] Branch_unfold [of _ _ _ _ "Suc 0"])

lemma TreeRender3D_trunk_children:
  assumes "tree_stage tree \<noteq> SEED"
  shows "\<exists>trunk c0 c1.
     TreeRender3D tree = TreeScene (Some trunk)
     \<and> n_children trunk = [c0, c1]
     \<and> n_depth c0 = 1 \<and> n_depth c1 = 1
     \<and> snd (snd (n_rotation c0)) =
         0.6 + (getDnaRandom (case tree_dna tree of Some d \<Rightarrow> d
                  | None \<Rightarrow> [speciesName (tree_species tree) @ ''INIT'']) 0 200 * 0.6 - 0.3)
           + real (tree_wiringState tree) * 0.2
     \<and> snd (snd (n_rotation c1)) =
         - 0.6 + (getDnaRandom (case tree_dna tree of Some d \<Rightarrow> d
                  | None \<Rightarrow> [speciesName (tree_species tree) @ ''INIT'']) 0 200 * 0.6 - 0.3)
           + real (tree_wiringState tree) * 0.2"
proof -
  have "0 < complexity3D (tree_stage tree)" using assms by (cases "tree_stage tree") simp_all
  from Branch_trunk_children [OF this] show ?thesis
    using assms by (simp add: TreeRender3D_def Let_def)
qed

text \<open>
  Claim C7. The tree rendered with wiring state \<open>w\<close> is the tree rendered with wiring
  state 0 with \<open>w * 0.2\<close> added to the z rotation of every child branch, at every
  depth. Nothing else depends on the wiring state: with the z rotations forgotten, the
  trees of any two wiring states are equal, so they have the same nodes, the same pruned
  branches, the same lengths and radii and the same foliage. The shear is there to see
  in every tree past the seed stage: the trunk has two children, at depth 1, and their
  z rotations are \<open>0.6\<close> and \<open>-0.6\<close> plus the DNA angle variance plus
  \<open>wiringState * 0.2\<close>.
\<close>

theorem C7_wiring_shear:
  "TreeRender3D (tree\<lparr>tree_wiringState := w\<rparr>) =
     shearScene (real w * 0.2) (TreeRender3D (tree\<lparr>tree_wiringState := 0\<rparr>))
   \<and> dropRotZScene (TreeRender3D (tree\<lparr>tree_wiringState := w\<rparr>)) =
     dropRotZScene (TreeRender3D (tree\<lparr>tree_wiringState := w'\<rparr>))
   \<and> (tree_stage tree \<noteq> SEED \<longrightarrow>
        (\<exists>trunk c0 c1.
           TreeRender3D tree = TreeScene (Some trunk)
           \<and> n_children trunk = [c0, c1]
           \<and> n_depth c0 = 1 \<and> n_depth c1 = 1
           \<and> snd (snd (n_rotation c0)) =
               0.6 + (getDnaRandom (case tree_dna tree of Some d \<Rightarrow> d
                        | None \<Rightarrow> [speciesName (tree_species tree) @ ''INIT'']) 0 200 * 0.6
                      - 0.3)
                 + real (tree_wiringState tree) * 0.2
           \<and> snd (snd (n_rotation c1)) =
               - 0.6 + (getDnaRandom (case tree_dna tree of Some d \<Rightarrow> d
                        | None \<Rightarrow> [speciesName (tree_species tree) @ ''INIT'']) 0 200 * 0.6
                      - 0.3)
                 + real (tree_wiringState tree) * 0.2))"
proof -
  have "dropRotZScene (TreeRender3D (tree\<lparr>tree_wiringState := w\<rparr>)) =
        dropRotZScene (TreeRender3D (tree\<lparr>tree_wiringState := 0\<rparr>))"
    by (subst TreeRender3D_wire) (rule dropRotZScene_shear)
  moreover have "dropRotZScene (TreeRender3D (tree\<lparr>tree_wiringState := w'\<rparr>)) =
        dropRotZScene (TreeRender3D (tree\<lparr>tree_wiringState := 0\<rparr>))"
    by (subst TreeRender3D_wire) (rule dropRotZScene_shear)
  ultimately show ?thesis
    using TreeRender3D_wire [where tree = tree and w = w] TreeRender3D_trunk_children [of tree]
    by simp
qed

theorem C7_wiring_shear_witness:
  "\<exists>trunk c0 c1.
     TreeRender3D (exampleTree PINE ADULT [''PIN-AB12'', ''EVO-643232-4F'', ''EVO-5A3C28-Q7''] 0 3)
       = TreeScene (Some trunk)
     \<and> n_children trunk = [c0, c1]
     \<and> snd (snd (n_rotation c0)) =
         0.6 + (getDnaRandom [''PIN-AB12'', ''EVO-643232-4F'', ''EVO-5A3C28-Q7''] 0 200 * 0.6
                - 0.3) + 3 * 0.2
     \<and> snd (snd (n_rotation c1)) =
         - 0.6 + (getDnaRandom [''PIN-AB12'', ''EVO-643232-4F'', ''EVO-5A3C28-Q7''] 0 200 * 0.6
                  - 0.3) + 3 * 0.2"
  using C7_wiring_shear
    [where tree = "exampleTree PINE ADULT
       [''PIN-AB12'', ''EVO-643232-4F'', ''EVO-5A3C28-Q7''] 0 3" and w = 0 and w' = 0]
  by (simp add: exampleTree_def) blast


subsection \<open>Offsets\<close>

lemma trunk_collision:
  "getDnaRandom [''PIN-NSG3'', ''EVO-643232-4F''] 0 100 = 0.241 \<and> getDnaRandom [''PIN-NSG3'', ''EVO-643232-4F''] 0 200 = 0.241"
  by (simp add: hash_eval)

lemma prune_leaf_alias: "dnaKey dna maxDepth (300 + 699) = dnaKey dna maxDepth 999"
  by simp

lemma prune_rotation_alias:
  "dnaKey [''A'', ''A1'', ''A133''] 3 (300 + 40) = ''A13340''
   \<and> dnaKey [''A'', ''A1'', ''A133''] (3 + 1) 0 = ''A13340''
   \<and> dnaKey [''A'', ''A1'', ''A13''] 3 (300 + 150) = ''A13450''
   \<and> dnaKey [''A'', ''A1'', ''A13''] (3 + 1) 50 = ''A13450''"
  by (simp add: dnaKey_def segment_def segmentIndex_def arrayGet_def orElse_def truthy_def
        str_def numberToString.simps digitChar_def)

lemma str_literals:
  "str 0 = ''0''" "str 50 = ''50''" "str 100 = ''100''" "str 200 = ''200''" "str 999 = ''999''"
  by (simp_all add: str_def numberToString.simps digitChar_def)

lemma ends_differ:
  assumes "u \<noteq> []" and "v \<noteq> []" and "last u \<noteq> last v"
  shows "a @ b @ u \<noteq> a' @ b' @ v"
proof
  assume "a @ b @ u = a' @ b' @ v"
  then have "last (a @ b @ u) = last (a' @ b' @ v)" by simp
  then show False using assms by simp
qed

lemma second_last_differ:
  assumes "2 \<le> length u" and "2 \<le> length v" and "rev u ! 1 \<noteq> rev v ! 1"
  shows "p @ u \<noteq> q @ v"
proof
  assume "p @ u = q @ v"
  then have "rev (p @ u) ! 1 = rev (q @ v) ! 1" by (simp only:)
  then show False using assms by (simp add: nth_append)
qed

lemma leaf_key_apart:
  "offset \<in> {0, 50, 100, 200} \<Longrightarrow> dnaKey dna maxDepth 999 \<noteq> dnaKey dna' depth offset"
  unfolding dnaKey_def
  by (rule ends_differ) (auto simp: str_literals)

lemma rot1_key_apart:
  "offset \<in> {100, 200} \<Longrightarrow> dnaKey dna (depth + 1) 50 \<noteq> dnaKey dna depth offset"
proof -
  assume o: "offset \<in> {100, 200}"
  have "(segment dna (depth + 1) @ str (depth + 1)) @ ''50''
        \<noteq> (segment dna depth @ str depth) @ str offset"
    using o by (intro second_last_differ) (auto simp: str_literals)
  then show ?thesis by (simp add: dnaKey_def str_literals)
qed

lemma rot0_key_apart:
  assumes "depth < 9" and "offset \<in> {100, 200}"
  shows "dnaKey dna (depth + 1) 0 \<noteq> dnaKey dna depth offset"
proof -
  have s: "str (depth + 1) = [digitChar (depth + 1)]"
    using assms(1) by (simp add: str_def numberToString_small)
  have z: "digitChar 0 = CHR ''0''" by (simp add: digitChar_def)
  have "digitChar (depth + 1) \<noteq> digitChar 0"
    using digitChar_inj [of "depth + 1" 0] assms(1) by auto
  then have d: "digitChar (depth + 1) \<noteq> CHR ''0''" unfolding z .
  have "segment dna (depth + 1) @ [digitChar (depth + 1), CHR ''0'']
        \<noteq> (segment dna depth @ str depth) @ str offset"
    using assms(2) d by (intro second_last_differ) (auto simp: str_literals)
  then show ?thesis unfolding dnaKey_def s by (simp add: str_literals)
qed

text \<open>
  Claim C8, as stated, fails twice. Distinct keys do not give distinct values, since a
  draw has only a thousand values: at the trunk of the history
  \<^verbatim>\<open>["PIN-NSG3", "EVO-643232-4F"]\<close> the length decay (offset 100) and the angle variance
  (offset 200) read different keys and draw the same value. And the keys themselves are
  not always distinct, because a key is the plain concatenation of segment, depth and
  offset: for the history \<^verbatim>\<open>["A", "A1", "A133"]\<close>, a node at depth 3 pruned with
  \<open>pruningCount = 40\<close> reads \<^verbatim>\<open>A1\<close>, \<^verbatim>\<open>3\<close>, \<^verbatim>\<open>340\<close>, and the rotation of its first child,
  drawn at depth 4 and offset 0, reads \<^verbatim>\<open>A133\<close>, \<^verbatim>\<open>4\<close>, \<^verbatim>\<open>0\<close>: the same string. Likewise for
  \<^verbatim>\<open>["A", "A1", "A13"]\<close> the pruning key at \<open>pruningCount = 150\<close> is the rotation key of the
  second child, and at a terminal node with \<open>pruningCount = 699\<close> the pruning offset is
  999, the leaf colour's.
\<close>

theorem C8_aliasing_counterexample:
  "dnaKey [''PIN-NSG3'', ''EVO-643232-4F''] 0 100 \<noteq> dnaKey [''PIN-NSG3'', ''EVO-643232-4F''] 0 200
   \<and> getDnaRandom [''PIN-NSG3'', ''EVO-643232-4F''] 0 100 = getDnaRandom [''PIN-NSG3'', ''EVO-643232-4F''] 0 200
   \<and> dnaKey [''A'', ''A1'', ''A133''] 3 (300 + 40) = dnaKey [''A'', ''A1'', ''A133''] (3 + 1) (0 * 50)
   \<and> dnaKey [''A'', ''A1'', ''A13''] 3 (300 + 150) = dnaKey [''A'', ''A1'', ''A13''] (3 + 1) (1 * 50)
   \<and> dnaKey [''A'', ''A1'', ''A133''] 3 (300 + 699) = dnaKey [''A'', ''A1'', ''A133''] 3 999"
proof -
  have "dnaKey [''PIN-NSG3'', ''EVO-643232-4F''] 0 100 \<noteq> dnaKey [''PIN-NSG3'', ''EVO-643232-4F''] 0 200"
    by (simp add: dnaKey_inj)
  moreover have "getDnaRandom [''PIN-NSG3'', ''EVO-643232-4F''] 0 100
                 = getDnaRandom [''PIN-NSG3'', ''EVO-643232-4F''] 0 200"
    using trunk_collision by simp
  moreover have "dnaKey [''A'', ''A1'', ''A133''] 3 (300 + 40)
                 = dnaKey [''A'', ''A1'', ''A133''] (3 + 1) (0 * 50)"
    using prune_rotation_alias by simp
  moreover have "dnaKey [''A'', ''A1'', ''A13''] 3 (300 + 150)
                 = dnaKey [''A'', ''A1'', ''A13''] (3 + 1) (1 * 50)"
    using prune_rotation_alias by simp
  moreover have "dnaKey [''A'', ''A1'', ''A133''] 3 (300 + 699) = dnaKey [''A'', ''A1'', ''A133''] 3 999"
    by (rule prune_leaf_alias)
  ultimately show ?thesis by (intro conjI)
qed

text \<open>
  Claim C8, amended. A node of the generator draws exactly the values of the equation
  below, each the hash of the key \<^verbatim>\<open>segment + depth + offset\<close>: pruning at its own depth
  and offset \<open>300 + pruningCount\<close>, the length decay at its own depth and offset 100, the
  angle variance at its own depth and offset 200, the rotation of child \<open>i\<close> at the
  child's depth and offset \<open>i * 50\<close>, the leaf colour at \<open>maxDepth\<close> and offset 999. Of
  these keys the length, angle and pruning keys are pairwise distinct strings; the two
  rotation keys differ from each other; the leaf colour key differs from the length,
  angle and rotation keys; the rotation key of the second child differs from the length
  and angle keys, and so does that of the first child at the depths below 9, which are
  all the depths a rendered tree has. Nothing is claimed of the pruning key against the
  rotation and leaf colour keys, and distinct keys can still draw equal values.
\<close>

theorem C8_offset_keys:
  "Branch position rotation len radius depth maxDepth species pruneState wireState dna =
   (if depth > 1 \<and> getDnaRandom dna depth (300 + pruneState) > 0.85 then None
    else Some (BranchNode position rotation len radius (radius * 0.7) depth
           (colorBark (SPECIES_CONFIG species))
           (if maxDepth \<le> depth
            then Some (colorLeaf (SPECIES_CONFIG species),
                       (getDnaRandom dna maxDepth 999 - 0.5) * 0.1)
            else None)
           (if maxDepth \<le> depth then []
            else rendered (Branch (0, len, 0)
                    (getDnaRandom dna (depth + 1) 0 * 0.6, 0,
                     0.6 + (getDnaRandom dna depth 200 * 0.6 - 0.3) + real wireState * 0.2)
                    (len * (0.75 + getDnaRandom dna depth 100 * 0.1)) (radius * 0.7)
                    (depth + 1) maxDepth species pruneState wireState dna)
               @ rendered (Branch (0, len, 0)
                    (getDnaRandom dna (depth + 1) 50 * 0.6, 0,
                     - 0.6 + (getDnaRandom dna depth 200 * 0.6 - 0.3) + real wireState * 0.2)
                    (len * (0.75 + getDnaRandom dna depth 100 * 0.1)) (radius * 0.7)
                    (depth + 1) maxDepth species pruneState wireState dna))))
   \<and> getDnaRandom dna d offset = unitFloat (cyrb53 (dnaKey dna d offset) 0)
   \<and> distinct [dnaKey dna depth 100, dnaKey dna depth 200, dnaKey dna depth (300 + pruneState)]
   \<and> dnaKey dna (depth + 1) 0 \<noteq> dnaKey dna (depth + 1) 50
   \<and> dnaKey dna maxDepth 999 \<notin> set [dnaKey dna depth 100, dnaKey dna depth 200,
                                     dnaKey dna (depth + 1) 0, dnaKey dna (depth + 1) 50]
   \<and> dnaKey dna (depth + 1) 50 \<notin> set [dnaKey dna depth 100, dnaKey dna depth 200]
   \<and> (depth < 9 \<longrightarrow> dnaKey dna (depth + 1) 0 \<notin> set [dnaKey dna depth 100, dnaKey dna depth 200])"
proof (intro conjI)
  show "distinct [dnaKey dna depth 100, dnaKey dna depth 200, dnaKey dna depth (300 + pruneState)]"
    by (simp add: dnaKey_inj)
  show "dnaKey dna (depth + 1) 0 \<noteq> dnaKey dna (depth + 1) 50"
    by (simp add: dnaKey_inj)
  show "dnaKey dna maxDepth 999 \<notin> set [dnaKey dna depth 100, dnaKey dna depth 200,
                                       dnaKey dna (depth + 1) 0, dnaKey dna (depth + 1) 50]"
    using leaf_key_apart [of 100 dna maxDepth dna depth] leaf_key_apart [of 200 dna maxDepth dna depth]
      leaf_key_apart [of 0 dna maxDepth dna "depth + 1"] leaf_key_apart [of 50 dna maxDepth dna "depth + 1"]
    by simp
  show "dnaKey dna (depth + 1) 50 \<notin> set [dnaKey dna depth 100, dnaKey dna depth 200]"
    using rot1_key_apart [of 100 dna depth] rot1_key_apart [of 200 dna depth] by simp
  show "depth < 9 \<longrightarrow> dnaKey dna (depth + 1) 0 \<notin> set [dnaKey dna depth 100, dnaKey dna depth 200]"
    using rot0_key_apart [of depth 100 dna] rot0_key_apart [of depth 200 dna] by simp
qed (rule Branch_unfold, rule getDnaRandom_def)

theorem C8_offset_keys_witness:
  "(3::nat) < 9
   \<and> dnaKey [''PIN-AB12'', ''EVO-643232-4F''] (3 + 1) 0
       \<notin> set [dnaKey [''PIN-AB12'', ''EVO-643232-4F''] 3 100, dnaKey [''PIN-AB12'', ''EVO-643232-4F''] 3 200]"
  using C8_offset_keys [where dna = "[''PIN-AB12'', ''EVO-643232-4F'']" and depth = 3,
      THEN conjunct2, THEN conjunct2, THEN conjunct2, THEN conjunct2, THEN conjunct2, THEN conjunct2]
  by simp


subsection \<open>Empty history\<close>

lemma empty_draws: "getDnaRandom [] 0 100 = 0.964 \<and> getDnaFloat [] 1 = 0.748"
  by (simp add: hash_eval)

text \<open>
  Claim C9. Both DNA accessors are defined on an empty history: an out-of-range array
  read is \<^verbatim>\<open>undefined\<close>, not an error, and the accessors replace it by the token
  \<^verbatim>\<open>DEFAULT\<close> (3D) or \<^verbatim>\<open>SEED\<close> (2D). For every depth, offset and cursor the value
  is the hash of the key built from that token and lies in \<open>[0, 1)\<close> (0.964 for
  depth 0 and offset 100, 0.748 for cursor 1), and the 3D generator run on a record with
  an empty history still renders its root branch. No operation on this path can throw,
  so the model needs no error value.
\<close>

theorem C9_empty_history_total:
  "segment [] depth = ''DEFAULT''
   \<and> getDnaRandom [] depth offset = unitFloat (cyrb53 (''DEFAULT'' @ str depth @ str offset) 0)
   \<and> 0 \<le> getDnaRandom [] depth offset \<and> getDnaRandom [] depth offset < 1
   \<and> segment2D [] cursor = ''SEED''
   \<and> getDnaFloat [] cursor = unitFloat (cyrb53 (''SEED-'' @ str cursor) 0)
   \<and> 0 \<le> getDnaFloat [] cursor \<and> getDnaFloat [] cursor < 1
   \<and> TreeRender3D (tree\<lparr>tree_dna := Some []\<rparr>) \<noteq> TreeScene None
   \<and> getDnaRandom [] 0 100 = 0.964 \<and> getDnaFloat [] 1 = 0.748"
  using empty_draws
  by (simp add: segment_empty segment2D_empty getDnaRandom_def getDnaFloat_def dnaKey_def
      floatKey_def unitFloat_range TreeRender3D_renders)


subsection \<open>The genetic history encoder\<close>

lemma upper_digit: "d < 16 \<Longrightarrow> toUpperCaseChar (digitChar d) = ''0123456789ABCDEF'' ! d"
proof -
  have "\<forall>d \<in> set [0..<16]. toUpperCaseChar (digitChar d) = ''0123456789ABCDEF'' ! d"
    by (simp add: toUpperCaseChar_def digitChar_def upt_rec)
  then show "d < 16 \<Longrightarrow> toUpperCaseChar (digitChar d) = ''0123456789ABCDEF'' ! d" by simp
qed

lemma hex_byte:
  assumes "n < 256"
  shows "padStart0 (toUpperCase (numberToString 16 n)) 2 = hex2 n"
proof (cases "n < 16")
  case True
  then have "numberToString 16 n = [digitChar n]" by (simp add: numberToString_small)
  then show ?thesis using True
    by (simp add: padStart0_def toUpperCase_def hex2_def upper_digit)
next
  case False
  have d: "n div 16 < 16" using assms by simp
  have "numberToString 16 n = numberToString 16 (n div 16) @ [digitChar (n mod 16)]"
    using False by (simp add: numberToString_step)
  also have "numberToString 16 (n div 16) = [digitChar (n div 16)]"
    using d by (simp add: numberToString_small)
  finally show ?thesis using d
    by (simp add: padStart0_def toUpperCase_def hex2_def upper_digit)
qed

lemma vital_hex:
  assumes "0 \<le> x" and "x \<le> 100"
  shows "padStart0 (toUpperCase (floorToString 16 x)) 2 = hex2 (nat \<lfloor>x\<rfloor>)"
proof -
  have f: "0 \<le> \<lfloor>x\<rfloor>" "\<lfloor>x\<rfloor> \<le> 100" using assms by (simp_all add: floor_le_iff le_floor_iff)
  then have "nat \<lfloor>x\<rfloor> < 256" by linarith
  then show ?thesis using f hex_byte [of "nat \<lfloor>x\<rfloor>"] by (simp add: floorToString_def)
qed

lemma upper36: "isDigit36 c \<Longrightarrow> isUpper36 (toUpperCaseChar c)"
proof -
  have "\<forall>c \<in> set ''0123456789abcdefghijklmnopqrstuvwxyz''. isUpper36 (toUpperCaseChar c)"
    by (simp add: isUpper36_def toUpperCaseChar_def)
  then show "isDigit36 c \<Longrightarrow> isUpper36 (toUpperCaseChar c)"
    unfolding isDigit36_def by blast
qed

lemma random36_suffix:
  assumes "isRandom36 s"
  shows "list_all isUpper36 (toUpperCase (substring s 2 b))"
proof -
  have "list_all isDigit36 (drop 2 s)"
    using assms by (auto simp: isRandom36_def)
  then have "list_all isDigit36 (take (b - 2) (drop 2 s))"
    by (auto simp: list_all_iff dest: in_set_takeD)
  then show ?thesis
    by (auto simp: toUpperCase_def substring_def list_all_iff upper36)
qed

text \<open>
  Claim C10, as stated, fails on the random suffix: \<^verbatim>\<open>substring(2, 4)\<close> and
  \<^verbatim>\<open>substring(2, 6)\<close> cut what the base-36 rendering of the draw has, and that can be
  shorter. For the draw one half, rendered \<^verbatim>\<open>0.i\<close>, the suffix is the single character
  \<^verbatim>\<open>I\<close>, so the tokens are one and three characters shorter than the claimed format.
\<close>

theorem C10_short_suffix_counterexample:
  "isRandom36 ''0.i''
   \<and> generateDNASegment ''S1'' (Some \<lparr>health = 100, water = 50, fertilizer = 50\<rparr>) ''0.i''
       = ''EVO-643232-I''
   \<and> length (generateDNASegment ''S1'' (Some \<lparr>health = 100, water = 50, fertilizer = 50\<rparr>)
         ''0.i'') \<noteq> length ''EVO-'' + 3 * 2 + length ''-'' + 2
   \<and> generateDNASegment ''PIN'' None ''0.i'' = ''PIN-I''
   \<and> length (generateDNASegment ''PIN'' None ''0.i'') \<noteq> length ''PIN'' + length ''-'' + 4"
  using vital_hex [of 100] vital_hex [of 50]
  by (simp add: isRandom36_def isDigit36_def generateDNASegment_def hex2_def toUpperCase_def
      toUpperCaseChar_def substring_def)

text \<open>
  Claim C10, amended. For vitals in \<open>[0, 100]\<close> the stage-transition token is
  \<^verbatim>\<open>EVO-\<close>, then the floor of each vital as exactly two uppercase hexadecimal digits
  (health, water, fertilizer), then \<^verbatim>\<open>-\<close>, then the suffix: characters 2 and 3 of the
  base-36 rendering of one random draw, in upper case. The suffix has at most 2
  characters, all of them base-36 uppercase digits, and exactly 2 when the rendering has
  at least 4 characters. Without vitals the token is the prefix, \<^verbatim>\<open>-\<close>, and characters
  2 to 5 of the rendering in upper case: at most 4 characters, exactly 4 when the
  rendering has at least 6.
\<close>

theorem C10_segment_format:
  "(0 \<le> health st \<and> health st \<le> 100 \<and> 0 \<le> water st \<and> water st \<le> 100
      \<and> 0 \<le> fertilizer st \<and> fertilizer st \<le> 100 \<longrightarrow>
      generateDNASegment prefix (Some st) random36 =
        ''EVO-'' @ hex2 (nat \<lfloor>health st\<rfloor>) @ hex2 (nat \<lfloor>water st\<rfloor>)
          @ hex2 (nat \<lfloor>fertilizer st\<rfloor>) @ ''-'' @ toUpperCase (substring random36 2 4))
   \<and> generateDNASegment prefix None random36 = prefix @ ''-'' @ toUpperCase (substring random36 2 6)
   \<and> length (hex2 n) = 2
   \<and> length (toUpperCase (substring random36 2 4)) \<le> 2
   \<and> length (toUpperCase (substring random36 2 6)) \<le> 4
   \<and> (4 \<le> length random36 \<longrightarrow> length (toUpperCase (substring random36 2 4)) = 2)
   \<and> (6 \<le> length random36 \<longrightarrow> length (toUpperCase (substring random36 2 6)) = 4)
   \<and> (isRandom36 random36 \<longrightarrow>
         list_all isUpper36 (toUpperCase (substring random36 2 4))
         \<and> list_all isUpper36 (toUpperCase (substring random36 2 6)))"
  using vital_hex [of "health st"] vital_hex [of "water st"] vital_hex [of "fertilizer st"]
    random36_suffix [of random36 4] random36_suffix [of random36 6]
  by (simp add: generateDNASegment_def Let_def toUpperCase_def substring_def hex2_def)

theorem C10_segment_format_witness:
  "generateDNASegment ''S1'' (Some \<lparr>health = 100, water = 50.5, fertilizer = 7\<rparr>) ''0.4fzyo82mvyr''
     = ''EVO-643207-4F''
   \<and> generateDNASegment ''PIN'' None ''0.4fzyo82mvyr'' = ''PIN-4FZY''"
proof -
  have r: "isRandom36 ''0.4fzyo82mvyr''" by (simp add: isRandom36_def isDigit36_def)
  have f: "\<lfloor>50.5 :: real\<rfloor> = 50" by (simp add: floor_eq_iff)
  show ?thesis
    using C10_segment_format [of "\<lparr>health = 100, water = 50.5, fertilizer = 7\<rparr>" "''S1''"
        "''0.4fzyo82mvyr''" 0] r f
    by (simp add: hex2_def toUpperCase_def toUpperCaseChar_def substring_def
        generateDNASegment_def)
qed


end
